theory Spec2Isabelle
  imports Complex_Main "HOL-Library.Multiset"
begin

section \<open>The stargazer fetcher: data model\<close>

text \<open>
  The embedding follows \<^verbatim>\<open>github-stargazers.js\<close>. JavaScript objects whose shape is fixed
  by the GitHub REST API become records holding the properties the program reads; a property
  that is absent or \<^verbatim>\<open>null\<close> is \<open>None\<close>. Instants are milliseconds since the epoch, the
  time value of a JavaScript \<^verbatim>\<open>Date\<close>; \<open>starred_at\<close> holds the time value of the ISO-8601
  string the API delivers. Console output is presentation and is kept only where a property
  below speaks about it.
\<close>

type_synonym instant = int

text \<open>A user object: the \<^verbatim>\<open>user\<close> member of a stargazers page item, and the body of
  \<^verbatim>\<open>GET /users/:login\<close>. The page item carries no profile fields.\<close>

record user =
  login :: string
  uid :: int
  html_url :: string
  utype :: "string option"
  name :: "string option"
  company :: "string option"
  location :: "string option"
  bio :: "string option"
  followers :: "int option"
  public_repos :: "int option"

text \<open>The flattened record \<^verbatim>\<open>{...item.user, starred_at: item.starred_at}\<close>.\<close>

record stargazer = user +
  starred_at :: instant

record item =
  item_user :: user
  item_starred_at :: instant

text \<open>A response body is either text that \<^verbatim>\<open>JSON.parse\<close> rejects, or one of the JSON
  values the two endpoints deliver: \<^verbatim>\<open>null\<close>, an array of page items, a user object, or an
  error object with a string \<^verbatim>\<open>message\<close>.\<close>

datatype payload = PNull | PStargazers "item list" | PUser user | PMessage string

datatype body = NotJson string | Json payload

record response =
  statusCode :: int
  headers :: "(string \<times> string) list"
  body :: body

datatype exchange = TransportError string | Response response

text \<open>The URLs the program builds: \<^verbatim>\<open>${GITHUB_API_URL}?page=${page}&per_page=100\<close> and
  \<^verbatim>\<open>https://api.github.com/users/${username}\<close>.\<close>

datatype url = StargazersUrl nat nat | UserUrl string

text \<open>Every \<^verbatim>\<open>reject(new Error(...))\<close> and every exception of the source is a value.\<close>

datatype error =
    ParseError
  | Transport string
  | HttpError int body
  | SamlEnforcement string
  | TypeError

text \<open>What \<^verbatim>\<open>makeRequest\<close> resolves with: \<^verbatim>\<open>{data, headers, statusCode}\<close>.\<close>

record reply =
  data :: payload
  reply_headers :: "(string \<times> string) list"
  reply_status :: int

datatype event =
    CouldNotFetch string error
  | EnrichOk nat string
  | EnrichWarn nat string error

text \<open>The effects of a run, in order: a request put on the wire, a timer armed with
  \<^verbatim>\<open>setTimeout\<close> (the call site that arms it and its delay in milliseconds, \<open>None\<close>
  for \<^verbatim>\<open>NaN\<close>), a console line. The three call sites are the rate-limit wait in
  \<^verbatim>\<open>makeRequest\<close>, the pause between pages and the pause between batches.\<close>

datatype timer = RetryTimer | PageTimer | BatchTimer

datatype effect = Request url | SetTimeout timer "int option" | Log event

type_synonym trace = "effect list"

text \<open>The world outside the process: \<open>net E u k\<close> is what comes back for the \<open>k\<close>-th
  attempt at URL \<open>u\<close> (the GET is idempotent, so the answer depends on the URL and on how
  often it was tried), and \<open>clock E u k\<close> is the reading of \<^verbatim>\<open>new Date()\<close> while that
  answer is handled.\<close>

record env =
  net :: "url \<Rightarrow> nat \<Rightarrow> exchange"
  clock :: "url \<Rightarrow> nat \<Rightarrow> instant"

section \<open>Runtime helpers\<close>

text \<open>\<^verbatim>\<open>parseInt(string, radix)\<close> on ASCII text: leading white space is skipped, a sign is
  read, with no radix (written \<open>0\<close> here) or radix 16 a \<^verbatim>\<open>0x\<close> prefix selects base 16, and
  the longest prefix of digits is converted. \<open>None\<close> is \<^verbatim>\<open>NaN\<close>; \<^verbatim>\<open>undefined\<close> is
  converted to the text \<^verbatim>\<open>undefined\<close> first and therefore gives \<^verbatim>\<open>NaN\<close>.\<close>

definition isWhiteSpace :: "char \<Rightarrow> bool" where
  "isWhiteSpace c = (of_char c \<in> {9, 10, 11, 12, 13, 32 :: nat})"

definition digitValue :: "char \<Rightarrow> nat" where
  "digitValue c =
     (let n = (of_char c :: nat) in
      if 48 \<le> n \<and> n \<le> 57 then n - 48
      else if 97 \<le> n \<and> n \<le> 122 then n - 87
      else if 65 \<le> n \<and> n \<le> 90 then n - 55
      else 36)"

fun digitsValue :: "nat \<Rightarrow> nat \<Rightarrow> string \<Rightarrow> nat" where
  "digitsValue r acc [] = acc"
| "digitsValue r acc (c # cs) = digitsValue r (acc * r + digitValue c) cs"

definition parseIntString :: "string \<Rightarrow> nat \<Rightarrow> int option" where
  "parseIntString s radix =
     (let s1 = dropWhile isWhiteSpace s;
          neg = (take 1 s1 = ''-'');
          s2 = (if take 1 s1 = ''-'' \<or> take 1 s1 = ''+'' then drop 1 s1 else s1);
          hex = ((radix = 0 \<or> radix = 16) \<and> (take 2 s2 = ''0x'' \<or> take 2 s2 = ''0X''));
          r = (if hex then 16 else if radix = 0 then 10 else radix);
          s3 = (if hex then drop 2 s2 else s2);
          ds = takeWhile (\<lambda>c. digitValue c < r) s3
      in if r < 2 \<or> 36 < r \<or> ds = [] then None
         else Some ((if neg then - 1 else 1) * int (digitsValue r 0 ds)))"

definition parseInt :: "string option \<Rightarrow> nat \<Rightarrow> int option" where
  "parseInt v radix = (case v of None \<Rightarrow> None | Some s \<Rightarrow> parseIntString s radix)"

text \<open>\<^verbatim>\<open>String.prototype.includes\<close>.\<close>

fun str_includes :: "string \<Rightarrow> string \<Rightarrow> bool" where
  "str_includes [] sub = (sub = [])"
| "str_includes (c # cs) sub = (take (length sub) (c # cs) = sub \<or> str_includes cs sub)"

text \<open>\<^verbatim>\<open>new Date(v)\<close> of a number: a time value beyond \<open>8.64e15\<close> ms is an invalid date.\<close>

definition timeClip :: "int \<Rightarrow> instant option" where
  "timeClip v = (if \<bar>v\<bar> \<le> 8640000000000000 then Some v else None)"

text \<open>\<^verbatim>\<open>Math.ceil(x / 1000)\<close> for an integer \<open>x\<close>.\<close>

definition ceilDiv1000 :: "int \<Rightarrow> int" where
  "ceilDiv1000 x = - ((- x) div 1000)"

section \<open>\<^verbatim>\<open>makeRequest\<close>\<close>

text \<open>The wait computed in the rate-limit branch:
  \<^verbatim>\<open>resetTime = new Date(parseInt(rateLimitReset) * 1000)\<close>,
  \<^verbatim>\<open>waitTime = Math.ceil((resetTime - new Date()) / 1000) + 60\<close>.\<close>

definition waitTime :: "string option \<Rightarrow> instant \<Rightarrow> int option" where
  "waitTime rateLimitReset now =
     (case parseInt rateLimitReset 0 of
        None \<Rightarrow> None
      | Some secs \<Rightarrow>
          (case timeClip (secs * 1000) of
             None \<Rightarrow> None
           | Some resetTime \<Rightarrow> Some (ceilDiv1000 (resetTime - now) + 60)))"

text \<open>The 2xx branch: \<^verbatim>\<open>JSON.parse(data)\<close> inside \<^verbatim>\<open>try\<close>.\<close>

definition parseBody :: "response \<Rightarrow> error + reply" where
  "parseBody res =
     (case body res of
        NotJson t \<Rightarrow> Inl ParseError
      | Json jsonData \<Rightarrow>
          Inr \<lparr>data = jsonData, reply_headers = headers res, reply_status = statusCode res\<rparr>)"

text \<open>The 403 branch without exhausted quota. Reading \<^verbatim>\<open>.message\<close> of \<^verbatim>\<open>null\<close> throws
  inside the \<^verbatim>\<open>try\<close> and lands in the same \<^verbatim>\<open>catch\<close> as a parse failure; an array or a
  user object has no \<^verbatim>\<open>message\<close>; the empty string is falsy.\<close>

definition forbidden :: "response \<Rightarrow> error" where
  "forbidden res =
     (case body res of
        NotJson t \<Rightarrow> HttpError (statusCode res) (body res)
      | Json errorData \<Rightarrow>
          (case errorData of
             PMessage m \<Rightarrow>
               if m \<noteq> [] \<and> str_includes m ''SAML enforcement''
               then SamlEnforcement m
               else HttpError (statusCode res) (body res)
           | _ \<Rightarrow> HttpError (statusCode res) (body res)))"

text \<open>\<open>makeRequest E u k tr\<close> is the call \<^verbatim>\<open>makeRequest(url)\<close> whose first exchange is the
  \<open>k\<close>-th attempt at \<open>u\<close>, started after the effects \<open>tr\<close>. The result \<open>None\<close> is a promise
  that never settles; \<open>Inl\<close> is a rejection. The recursive call is the one made from the
  timer callback, \<^verbatim>\<open>makeRequest(url, options).then(resolve).catch(reject)\<close>. No caller
  passes \<^verbatim>\<open>options\<close> and the retry hands on what it was given, so a request is its URL.\<close>

partial_function (option) makeRequest ::
  "env \<Rightarrow> url \<Rightarrow> nat \<Rightarrow> trace \<Rightarrow> ((error + reply) \<times> trace) option" where
  "makeRequest E u k tr =
     (case net E u k of
        TransportError m \<Rightarrow> Some (Inl (Transport m), tr @ [Request u])
      | Response res \<Rightarrow>
          if 200 \<le> statusCode res \<and> statusCode res < 300 then
            Some (parseBody res, tr @ [Request u])
          else if statusCode res = 403 then
            (if map_of (headers res) ''x-ratelimit-remaining'' = Some ''0'' then
               makeRequest E u (Suc k)
                 (tr @ [Request u,
                        SetTimeout RetryTimer (map_option (\<lambda>s. s * 1000)
                          (waitTime (map_of (headers res) ''x-ratelimit-reset'') (clock E u k)))])
             else Some (Inl (forbidden res), tr @ [Request u]))
          else Some (Inl (HttpError (statusCode res) (body res)), tr @ [Request u]))"

section \<open>\<^verbatim>\<open>getStargazers\<close>\<close>

definition flatten :: "item \<Rightarrow> stargazer" where
  "flatten it =
     \<lparr>login = login (item_user it), uid = uid (item_user it),
      html_url = html_url (item_user it), utype = utype (item_user it),
      name = name (item_user it), company = company (item_user it),
      location = location (item_user it), bio = bio (item_user it),
      followers = followers (item_user it), public_repos = public_repos (item_user it),
      starred_at = item_starred_at it\<rparr>"

text \<open>\<^verbatim>\<open>xs.slice(0, n)\<close>: a negative end counts from the end of the array.\<close>

definition sliceTo :: "'a list \<Rightarrow> int \<Rightarrow> 'a list" where
  "sliceTo xs n = (if n < 0 then take (nat (int (length xs) + n)) xs else take (nat n) xs)"

text \<open>\<^verbatim>\<open>limit && allStargazers.length >= limit\<close>: \<^verbatim>\<open>null\<close> (\<open>None\<close>) and \<open>0\<close> are falsy.\<close>

definition limitReached :: "int option \<Rightarrow> nat \<Rightarrow> bool" where
  "limitReached limit n = (case limit of None \<Rightarrow> False | Some l \<Rightarrow> l \<noteq> 0 \<and> l \<le> int n)"

text \<open>\<^verbatim>\<open>if (allStargazers.length > limit) allStargazers = allStargazers.slice(0, limit)\<close>.\<close>

definition trimToLimit :: "int option \<Rightarrow> 'a list \<Rightarrow> 'a list" where
  "trimToLimit limit xs =
     (case limit of
        None \<Rightarrow> xs
      | Some l \<Rightarrow> if l < int (length xs) then sliceTo xs l else xs)"

text \<open>The \<^verbatim>\<open>while (hasMorePages)\<close> loop, one recursive call per further iteration. A body
  that is not an array has no \<^verbatim>\<open>map\<close> (or, for \<^verbatim>\<open>null\<close>, no \<^verbatim>\<open>length\<close>): the
  \<^verbatim>\<open>TypeError\<close> is caught and rethrown like every other error. \<open>None\<close>: the loop never ends.\<close>

partial_function (option) fetchPages ::
  "env \<Rightarrow> int option \<Rightarrow> nat \<Rightarrow> stargazer list \<Rightarrow> trace
     \<Rightarrow> ((error + stargazer list) \<times> trace) option" where
  "fetchPages E limit page allStargazers tr =
     Option.bind (makeRequest E (StargazersUrl page 100) 0 tr) (\<lambda>(r, tr1).
       case r of
         Inl e \<Rightarrow> Some (Inl e, tr1)
       | Inr response \<Rightarrow>
           (case data response of
              PStargazers stargazersData \<Rightarrow>
                if length stargazersData = 0 then Some (Inr allStargazers, tr1)
                else
                  if limitReached limit (length (allStargazers @ map flatten stargazersData))
                  then Some (Inr (trimToLimit limit (allStargazers @ map flatten stargazersData)),
                             tr1)
                  else fetchPages E limit (page + 1)
                         (allStargazers @ map flatten stargazersData)
                         (tr1 @ [SetTimeout PageTimer (Some 1000)])
            | _ \<Rightarrow> Some (Inl TypeError, tr1)))"

definition getStargazers ::
  "env \<Rightarrow> int option \<Rightarrow> trace \<Rightarrow> ((error + stargazer list) \<times> trace) option" where
  "getStargazers E limit tr = fetchPages E limit 1 [] tr"

section \<open>Observations on a run\<close>

text \<open>The URLs put on the wire, in order.\<close>

fun requested :: "trace \<Rightarrow> url list" where
  "requested [] = []"
| "requested (Request u # tr) = u # requested tr"
| "requested (_ # tr) = requested tr"

text \<open>The value a settled promise resolved with, if it did.\<close>

fun resolved :: "((error + 'a) \<times> trace) option \<Rightarrow> 'a option" where
  "resolved (Some (Inr v, tr)) = Some v"
| "resolved _ = None"

text \<open>How a request started afresh settles, whatever the effects around it.\<close>

definition fetchOutcome :: "env \<Rightarrow> url \<Rightarrow> (error + reply) option" where
  "fetchOutcome E u = map_option fst (makeRequest E u 0 [])"

text \<open>The array a page request resolves with.\<close>

definition pageData :: "env \<Rightarrow> nat \<Rightarrow> payload option" where
  "pageData E p = map_option data (resolved (makeRequest E (StargazersUrl p 100) 0 []))"

text \<open>The records of pages \<open>j, \<dots>, j + n - 1\<close> of a paged collection \<open>P\<close>, in page order.\<close>

definition pagesFrom :: "(nat \<Rightarrow> item list) \<Rightarrow> nat \<Rightarrow> nat \<Rightarrow> stargazer list" where
  "pagesFrom P j n = concat (map (\<lambda>p. map flatten (P p)) [j..<j + n])"

text \<open>An exchange that sends \<^verbatim>\<open>makeRequest\<close> into its wait-and-retry branch.\<close>

fun rateLimited :: "exchange \<Rightarrow> bool" where
  "rateLimited (TransportError m) = False"
| "rateLimited (Response res) =
     (statusCode res = 403 \<and> map_of (headers res) ''x-ratelimit-remaining'' = Some ''0'')"

text \<open>The timer armed after the \<open>k\<close>-th attempt at \<open>u\<close> was answered with exhausted quota.\<close>

fun retryDelay :: "env \<Rightarrow> url \<Rightarrow> nat \<Rightarrow> int option" where
  "retryDelay E u k =
     (case net E u k of
        TransportError m \<Rightarrow> None
      | Response res \<Rightarrow>
          map_option (\<lambda>s. s * 1000)
            (waitTime (map_of (headers res) ''x-ratelimit-reset'') (clock E u k)))"

text \<open>The effects of \<open>n\<close> exhausted-quota rounds starting with attempt \<open>k\<close>.\<close>

definition retryEffects :: "env \<Rightarrow> url \<Rightarrow> nat \<Rightarrow> nat \<Rightarrow> trace" where
  "retryEffects E u k n = concat (map (\<lambda>i. [Request u, SetTimeout RetryTimer (retryDelay E u i)]) [k..<k + n])"

text \<open>The batch pauses armed during a run.\<close>

definition batchPauses :: "trace \<Rightarrow> nat" where
  "batchPauses tr = length (filter (\<lambda>e. e = SetTimeout BatchTimer (Some 2000)) tr)"

text \<open>The console lines of a run.\<close>

fun logged :: "trace \<Rightarrow> event list" where
  "logged [] = []"
| "logged (Log ev # tr) = ev # logged tr"
| "logged (_ # tr) = logged tr"

text \<open>The console lines written by the \<^verbatim>\<open>catch\<close> branch of the enrichment callback.\<close>

fun isWarn :: "event \<Rightarrow> bool" where
  "isWarn (EnrichWarn n l e) = True"
| "isWarn _ = False"

definition catchLines :: "trace \<Rightarrow> event list" where
  "catchLines tr = filter isWarn (logged tr)"

text \<open>Effects that are the traffic of one URL only: requests for it and timers of the
  retry, no console line and no batch pause.\<close>

definition wireOnly :: "url \<Rightarrow> trace \<Rightarrow> bool" where
  "wireOnly u t = (set (requested t) = {u} \<and> logged t = [] \<and> batchPauses t = 0)"

section \<open>Enrichment\<close>

text \<open>\<^verbatim>\<open>getDetailedUserInfo\<close>: the \<^verbatim>\<open>catch\<close> turns every rejection of the request into
  \<^verbatim>\<open>null\<close>. The result is typed as a promise that could reject (\<open>Inl\<close>).\<close>

definition getDetailedUserInfo ::
  "env \<Rightarrow> string \<Rightarrow> trace \<Rightarrow> ((error + payload) \<times> trace) option" where
  "getDetailedUserInfo E username tr =
     Option.bind (makeRequest E (UserUrl username) 0 tr) (\<lambda>(r, tr1).
       case r of
         Inr response \<Rightarrow> Some (Inr (data response), tr1)
       | Inl error \<Rightarrow> Some (Inr PNull, tr1 @ [Log (CouldNotFetch username error)]))"

text \<open>\<^verbatim>\<open>{...stargazer, ...detailedInfo}\<close>. A user object overwrites the properties it
  carries and leaves \<^verbatim>\<open>starred_at\<close>; \<^verbatim>\<open>null\<close> has no properties; the index properties of
  an array and the \<^verbatim>\<open>message\<close> of an error object are not properties of the record.\<close>

definition spread :: "stargazer \<Rightarrow> payload \<Rightarrow> stargazer" where
  "spread s detailedInfo =
     (case detailedInfo of
        PUser u \<Rightarrow>
          \<lparr>login = login u, uid = uid u, html_url = html_url u, utype = utype u,
           name = name u, company = company u, location = location u, bio = bio u,
           followers = followers u, public_repos = public_repos u,
           starred_at = starred_at s\<rparr>
      | _ \<Rightarrow> s)"

text \<open>The callback of \<^verbatim>\<open>batch.map\<close>, with its \<^verbatim>\<open>try\<close> and \<^verbatim>\<open>catch\<close> branches;
  \<open>processedCount\<close> is the counter the callbacks share.\<close>

definition enrichOne ::
  "env \<Rightarrow> stargazer \<Rightarrow> nat \<Rightarrow> trace \<Rightarrow> (stargazer \<times> nat \<times> trace) option" where
  "enrichOne E s processedCount tr =
     Option.bind (getDetailedUserInfo E (login s) tr) (\<lambda>(r, tr1).
       case r of
         Inr detailedInfo \<Rightarrow>
           Some (spread s detailedInfo, processedCount + 1,
                 tr1 @ [Log (EnrichOk (processedCount + 1) (login s))])
       | Inl error \<Rightarrow>
           Some (s, processedCount + 1,
                 tr1 @ [Log (EnrichWarn (processedCount + 1) (login s) error)]))"

text \<open>\<^verbatim>\<open>await Promise.all(batch.map(...))\<close>: the results keep the order of the batch, and
  nothing is returned before every callback has settled. The requests of a batch are in
  flight together; the model lists their effects in batch order.\<close>

fun enrichBatch ::
  "env \<Rightarrow> stargazer list \<Rightarrow> nat \<Rightarrow> trace \<Rightarrow> (stargazer list \<times> nat \<times> trace) option" where
  "enrichBatch E [] processedCount tr = Some ([], processedCount, tr)"
| "enrichBatch E (s # batch) processedCount tr =
     Option.bind (enrichOne E s processedCount tr) (\<lambda>(r, pc1, tr1).
       Option.bind (enrichBatch E batch pc1 tr1) (\<lambda>(rs, pc2, tr2).
         Some (r # rs, pc2, tr2)))"

text \<open>The loop \<^verbatim>\<open>for (let i = 0; i < stargazers.length; i += batchSize)\<close> with
  \<^verbatim>\<open>batchSize = 50\<close>.\<close>

function enrichFrom ::
  "env \<Rightarrow> stargazer list \<Rightarrow> nat \<Rightarrow> stargazer list \<Rightarrow> nat \<Rightarrow> trace
     \<Rightarrow> (stargazer list \<times> trace) option" where
  "enrichFrom E stargazers i enrichedStargazers processedCount tr =
     (if i < length stargazers then
        Option.bind (enrichBatch E (take 50 (drop i stargazers)) processedCount tr)
          (\<lambda>(batchResults, pc1, tr1).
             enrichFrom E stargazers (i + 50) (enrichedStargazers @ batchResults) pc1
               (if i + 50 < length stargazers
                then tr1 @ [SetTimeout BatchTimer (Some 2000)] else tr1))
      else Some (enrichedStargazers, tr))"
  by pat_completeness auto
termination
  by (relation "measure (\<lambda>(E, stargazers, i, enrichedStargazers, processedCount, tr).
        length stargazers - i)") auto

declare enrichFrom.simps [simp del]

definition enrichStargazersData ::
  "env \<Rightarrow> stargazer list \<Rightarrow> trace \<Rightarrow> (stargazer list \<times> trace) option" where
  "enrichStargazersData E stargazers tr = enrichFrom E stargazers 0 [] 0 tr"

text \<open>What the entry for a record has to be, given how its own request settles: the merge
  with the profile when the request resolves, the record itself when it rejects.\<close>

definition expectedEntry :: "env \<Rightarrow> stargazer \<Rightarrow> stargazer" where
  "expectedEntry E s =
     (case fetchOutcome E (UserUrl (login s)) of
        Some (Inr response) \<Rightarrow> spread s (data response)
      | _ \<Rightarrow> s)"

definition fetchFails :: "env \<Rightarrow> stargazer \<Rightarrow> bool" where
  "fetchFails E s = (case fetchOutcome E (UserUrl (login s)) of Some (Inl e) \<Rightarrow> True | _ \<Rightarrow> False)"

section \<open>The report\<close>

record listed =
  l_login :: string
  l_id :: int
  l_profile_url :: string
  l_starred_at :: instant
  l_type :: string

record top =
  t_login :: string
  t_id :: int
  t_profile_url :: string
  t_starred_at :: instant

record brief =
  b_login :: string
  b_starred_at :: instant

record report_summary =
  repository :: string
  total_stargazers :: nat
  report_generated_at :: instant

record report_statistics =
  user_types :: "(string \<times> nat) list"
  top_stargazers :: "top list"
  recent_stargazers :: "brief list"
  oldest_stargazers :: "brief list"

record report =
  summary :: report_summary
  statistics :: report_statistics
  stargazers_list :: "listed list"

text \<open>\<^verbatim>\<open>s.type || 'User'\<close>: a missing and an empty type are falsy.\<close>

definition typeOrUser :: "stargazer \<Rightarrow> string" where
  "typeOrUser s = (case utype s of None \<Rightarrow> ''User'' | Some t \<Rightarrow> if t = [] then ''User'' else t)"

text \<open>\<^verbatim>\<open>user_types[type] = (user_types[type] || 0) + 1\<close> on an object whose keys keep
  their insertion order.\<close>

fun countType :: "string \<Rightarrow> (string \<times> nat) list \<Rightarrow> (string \<times> nat) list" where
  "countType t [] = [(t, 1)]"
| "countType t ((k, c) # rest) = (if k = t then (k, c + 1) # rest else (k, c) # countType t rest)"

text \<open>\<^verbatim>\<open>xs.slice(-10)\<close>.\<close>

definition lastTen :: "'a list \<Rightarrow> 'a list" where
  "lastTen xs = drop (length xs - 10) xs"

text \<open>\<^verbatim>\<open>generateStargazersReport\<close> reads two things besides its argument: the repository
  name fixed at start-up from the environment, and the clock (\<^verbatim>\<open>new Date().toISOString()\<close>).
  \<^verbatim>\<open>Array.prototype.sort\<close> is stable; with the comparator
  \<^verbatim>\<open>new Date(b.starred_at) - new Date(a.starred_at)\<close> it sorts by descending instant.\<close>

definition generateStargazersReport :: "string \<Rightarrow> instant \<Rightarrow> stargazer list \<Rightarrow> report" where
  "generateStargazersReport repo now stargazers =
     (let sortedByDate = sort_key (\<lambda>s. - starred_at s) stargazers in
      \<lparr>summary =
         \<lparr>repository = repo, total_stargazers = length stargazers, report_generated_at = now\<rparr>,
       statistics =
         \<lparr>user_types = fold (\<lambda>s m. countType (typeOrUser s) m) stargazers [],
          top_stargazers =
            map (\<lambda>s. \<lparr>t_login = login s, t_id = uid s, t_profile_url = html_url s,
                       t_starred_at = starred_at s\<rparr>) (take 20 stargazers),
          recent_stargazers =
            map (\<lambda>s. \<lparr>b_login = login s, b_starred_at = starred_at s\<rparr>) (take 10 sortedByDate),
          oldest_stargazers =
            map (\<lambda>s. \<lparr>b_login = login s, b_starred_at = starred_at s\<rparr>)
              (rev (lastTen sortedByDate))\<rparr>,
       stargazers_list =
         map (\<lambda>s. \<lparr>l_login = login s, l_id = uid s, l_profile_url = html_url s,
                    l_starred_at = starred_at s, l_type = typeOrUser s\<rparr>) stargazers\<rparr>)"

section \<open>Filtering and sorting\<close>

record options =
  opt_sort :: string
  opt_date :: "string option"
  opt_from :: "string option"
  opt_to :: "string option"
  opt_timezone :: "string option"
  opt_limit :: "int option"
  opt_help :: bool

text \<open>What the program asks of \<^verbatim>\<open>Date\<close> and \<^verbatim>\<open>Intl\<close>, which depend on the machine's time
  zone and on the zone data installed:
  \<^item> \<open>parseDate\<close>: the time value of \<^verbatim>\<open>new Date(options.date)\<close>, \<open>None\<close> for an invalid date;
  \<^item> \<open>startOfLocalDay\<close>: \<^verbatim>\<open>d.setHours(0, 0, 0, 0)\<close>, midnight of the local day of \<open>d\<close>;
  \<^item> \<open>nextLocalDay\<close>: \<^verbatim>\<open>d.setDate(d.getDate() + 1)\<close>;
  \<^item> \<open>localClock\<close>: \<^verbatim>\<open>getHours()\<close>, \<^verbatim>\<open>getMinutes()\<close>, \<^verbatim>\<open>getSeconds()\<close>;
  \<^item> \<open>zoneSupported\<close>: whether \<^verbatim>\<open>Intl.DateTimeFormat\<close> accepts the zone
    (\<^verbatim>\<open>validateTimezone\<close>);
  \<^item> \<open>zoneClock\<close>: the hour, minute and second parts the formatter gives for an instant,
    \<open>None\<close> when formatting throws.\<close>

record runtime =
  parseDate :: "string \<Rightarrow> instant option"
  startOfLocalDay :: "instant \<Rightarrow> instant"
  nextLocalDay :: "instant \<Rightarrow> instant"
  localClock :: "instant \<Rightarrow> int \<times> int \<times> int"
  zoneSupported :: "string \<Rightarrow> bool"
  zoneClock :: "string \<Rightarrow> instant \<Rightarrow> (int \<times> int \<times> int) option"

text \<open>A string option is truthy when it is a non-empty string.\<close>

definition given :: "string option \<Rightarrow> bool" where
  "given v = (case v of None \<Rightarrow> False | Some s \<Rightarrow> s \<noteq> [])"

text \<open>\<^verbatim>\<open>String.prototype.split\<close> on a one-character separator.\<close>

fun splitOn :: "char \<Rightarrow> string \<Rightarrow> string list" where
  "splitOn c [] = [[]]"
| "splitOn c (x # xs) =
     (if x = c then [] # splitOn c xs
      else (case splitOn c xs of
              [] \<Rightarrow> [[x]]
            | p # ps \<Rightarrow> (x # p) # ps))"

text \<open>\<open>parts[i]\<close>, \<^verbatim>\<open>undefined\<close> beyond the end.\<close>

definition part :: "string list \<Rightarrow> nat \<Rightarrow> string option" where
  "part parts i = (if i < length parts then Some (parts ! i) else None)"

text \<open>\<^verbatim>\<open>parseTime\<close>: seconds since midnight; \<open>None\<close> is \<^verbatim>\<open>NaN\<close>, which every arithmetic
  operation hands on.\<close>

definition parseTime :: "string \<Rightarrow> int option" where
  "parseTime timeString =
     (let parts = splitOn CHR '':'' timeString;
          hours = parseInt (part parts 0) 10;
          minutes = parseInt (part parts 1) 10;
          seconds = (if given (part parts 2) then parseInt (part parts 2) 10 else Some 0)
      in case (hours, minutes, seconds) of
           (Some h, Some m, Some s) \<Rightarrow> Some (h * 3600 + m * 60 + s)
         | _ \<Rightarrow> None)"

record timeInfo =
  hours :: int
  minutes :: int
  seconds :: int
  totalSeconds :: int

definition localTimeInfo :: "runtime \<Rightarrow> instant \<Rightarrow> timeInfo" where
  "localTimeInfo R date =
     (case localClock R date of
        (h, m, s) \<Rightarrow> \<lparr>hours = h, minutes = m, seconds = s, totalSeconds = h * 3600 + m * 60 + s\<rparr>)"

definition getTimeInTimezone :: "runtime \<Rightarrow> instant \<Rightarrow> string option \<Rightarrow> timeInfo" where
  "getTimeInTimezone R date timezone =
     (case timezone of
        None \<Rightarrow> localTimeInfo R date
      | Some tz \<Rightarrow>
          if tz = [] then localTimeInfo R date
          else if \<not> zoneSupported R tz then localTimeInfo R date
          else (case zoneClock R tz date of
                  Some (h, m, s) \<Rightarrow>
                    \<lparr>hours = h, minutes = m, seconds = s,
                     totalSeconds = h * 3600 + m * 60 + s\<rparr>
                | None \<Rightarrow> localTimeInfo R date))"

text \<open>The date test \<^verbatim>\<open>starredDate >= targetDate && starredDate < nextDate\<close>. With an
  invalid \<^verbatim>\<open>targetDate\<close> both comparisons are false.\<close>

definition onDate :: "runtime \<Rightarrow> string \<Rightarrow> stargazer \<Rightarrow> bool" where
  "onDate R d s =
     (case parseDate R d of
        None \<Rightarrow> False
      | Some t0 \<Rightarrow>
          (let targetDate = startOfLocalDay R t0;
               nextDate = nextLocalDay R targetDate
           in targetDate \<le> starred_at s \<and> starred_at s < nextDate))"

text \<open>The time test. \<open>fromTime\<close> and \<open>toTime\<close> are \<^verbatim>\<open>null\<close> (\<open>None\<close>) or the result of
  \<^verbatim>\<open>parseTime\<close>; a comparison with \<^verbatim>\<open>NaN\<close> is false.\<close>

definition inWindow ::
  "runtime \<Rightarrow> int option option \<Rightarrow> int option option \<Rightarrow> string option \<Rightarrow> stargazer \<Rightarrow> bool" where
  "inWindow R fromTime toTime timezone s =
     (let starredTime = totalSeconds (getTimeInTimezone R (starred_at s) timezone);
          tooEarly = (case fromTime of Some (Some f) \<Rightarrow> starredTime < f | _ \<Rightarrow> False);
          tooLate = (case toTime of Some (Some t) \<Rightarrow> starredTime > t | _ \<Rightarrow> False)
      in \<not> tooEarly \<and> \<not> tooLate)"

text \<open>The value of \<open>filteredStargazers\<close> when the sort is reached.\<close>

definition filteredStargazers :: "runtime \<Rightarrow> stargazer list \<Rightarrow> options \<Rightarrow> stargazer list" where
  "filteredStargazers R stargazers opts =
     (if given (opt_date opts) then
        (let onDay = filter (onDate R (the (opt_date opts))) stargazers in
         if given (opt_from opts) \<or> given (opt_to opts) then
           filter (inWindow R
                     (if given (opt_from opts)
                      then Some (parseTime (the (opt_from opts))) else None)
                     (if given (opt_to opts)
                      then Some (parseTime (the (opt_to opts))) else None)
                     (opt_timezone opts)) onDay
         else onDay)
      else stargazers)"

text \<open>\<^verbatim>\<open>Array.prototype.sort\<close> is stable; the comparator is \<^verbatim>\<open>dateA - dateB\<close> for
  \<^verbatim>\<open>asc\<close> and \<^verbatim>\<open>dateB - dateA\<close> otherwise.\<close>

definition filterAndSortStargazers :: "runtime \<Rightarrow> stargazer list \<Rightarrow> options \<Rightarrow> stargazer list" where
  "filterAndSortStargazers R stargazers opts =
     (if opt_sort opts = ''asc''
      then sort_key starred_at (filteredStargazers R stargazers opts)
      else sort_key (\<lambda>s. - starred_at s) (filteredStargazers R stargazers opts))"

section \<open>A machine with a fixed offset from UTC\<close>

text \<open>Days since the epoch of a calendar date, and the instant of a UTC date and time.\<close>

definition daysFromCivil :: "int \<Rightarrow> int \<Rightarrow> int \<Rightarrow> int" where
  "daysFromCivil y m d =
     (let y1 = (if m \<le> 2 then y - 1 else y);
          era = y1 div 400;
          yoe = y1 mod 400;
          doy = (153 * (if m > 2 then m - 3 else m + 9) + 2) div 5 + d - 1;
          doe = yoe * 365 + yoe div 4 - yoe div 100 + doy
      in era * 146097 + doe - 719468)"

definition utc :: "int \<Rightarrow> int \<Rightarrow> int \<Rightarrow> int \<Rightarrow> int \<Rightarrow> int \<Rightarrow> instant" where
  "utc y m d hh mm ss = ((daysFromCivil y m d * 24 + hh) * 3600 + mm * 60 + ss) * 1000"

definition daysInMonth :: "int \<Rightarrow> int \<Rightarrow> int" where
  "daysInMonth y m =
     (if m = 2 then (if y mod 4 = 0 \<and> (y mod 100 \<noteq> 0 \<or> y mod 400 = 0) then 29 else 28)
      else if m = 4 \<or> m = 6 \<or> m = 9 \<or> m = 11 then 30 else 31)"

definition isDigit :: "char \<Rightarrow> bool" where
  "isDigit c = (48 \<le> (of_char c :: nat) \<and> (of_char c :: nat) \<le> 57)"

text \<open>\<^verbatim>\<open>new Date("YYYY-MM-DD")\<close>: a date-only ISO string denotes midnight UTC of that day.
  Strings that are not a calendar date in this form are taken as invalid.\<close>

definition isoDate :: "string \<Rightarrow> instant option" where
  "isoDate s =
     (if length s = 10 \<and> s ! 4 = CHR ''-'' \<and> s ! 7 = CHR ''-''
         \<and> list_all isDigit (take 4 s) \<and> list_all isDigit (take 2 (drop 5 s))
         \<and> list_all isDigit (drop 8 s)
      then
        (let y = int (digitsValue 10 0 (take 4 s));
             m = int (digitsValue 10 0 (take 2 (drop 5 s)));
             d = int (digitsValue 10 0 (drop 8 s))
         in if 1 \<le> m \<and> m \<le> 12 \<and> 1 \<le> d \<and> d \<le> daysInMonth y m
            then Some (utc y m d 0 0 0) else None)
      else None)"

definition wallClock :: "int \<Rightarrow> int \<times> int \<times> int" where
  "wallClock t =
     (let secs = (t mod 86400000) div 1000
      in (secs div 3600, (secs mod 3600) div 60, secs mod 60))"

text \<open>A machine whose local time is UTC plus \<open>offset\<close> minutes all year, and whose formatter
  knows the zone \<^verbatim>\<open>UTC\<close> only.\<close>

definition fixedOffset :: "int \<Rightarrow> runtime" where
  "fixedOffset offset =
     \<lparr>parseDate = isoDate,
      startOfLocalDay = (\<lambda>t. ((t + offset * 60000) div 86400000) * 86400000 - offset * 60000),
      nextLocalDay = (\<lambda>t. t + 86400000),
      localClock = (\<lambda>t. wallClock (t + offset * 60000)),
      zoneSupported = (\<lambda>tz. tz = ''UTC''),
      zoneClock = (\<lambda>tz t. if tz = ''UTC'' then Some (wallClock t) else None)\<rparr>"

section \<open>Command-line options\<close>





text \<open>\<^verbatim>\<open>/^([0-1]?[0-9]|2[0-3]):[0-5][0-9](:[0-5][0-9])?$/\<close>, read off the colon-separated
  parts.\<close>

definition isHourPart :: "string \<Rightarrow> bool" where
  "isHourPart h =
     (case h of
        [a] \<Rightarrow> isDigit a
      | [a, b] \<Rightarrow> ((a = CHR ''0'' \<or> a = CHR ''1'') \<and> isDigit b)
                  \<or> (a = CHR ''2'' \<and> b \<in> set ''0123'')
      | _ \<Rightarrow> False)"

definition isSixtyPart :: "string \<Rightarrow> bool" where
  "isSixtyPart m = (case m of [a, b] \<Rightarrow> a \<in> set ''012345'' \<and> isDigit b | _ \<Rightarrow> False)"

definition isTimeFormat :: "string \<Rightarrow> bool" where
  "isTimeFormat s =
     (case splitOn CHR '':'' s of
        [h, m] \<Rightarrow> isHourPart h \<and> isSixtyPart m
      | [h, m, sec] \<Rightarrow> isHourPart h \<and> isSixtyPart m \<and> isSixtyPart sec
      | _ \<Rightarrow> False)"





definition initialOptions :: options where
  "initialOptions =
     \<lparr>opt_sort = ''desc'', opt_date = None, opt_from = None, opt_to = None,
      opt_timezone = None, opt_limit = None, opt_help = False\<rparr>"







section \<open>Scenarios\<close>

text \<open>Concrete users, servers and machines on which the properties below are exercised.\<close>

definition sampleUser :: "string \<Rightarrow> user" where
  "sampleUser l =
     \<lparr>login = l, uid = 583231, html_url = ''https://github.com/'' @ l, utype = Some ''User'',
      name = None, company = None, location = None, bio = None,
      followers = None, public_repos = None\<rparr>"

definition sampleItem :: "string \<Rightarrow> instant \<Rightarrow> item" where
  "sampleItem l t = \<lparr>item_user = sampleUser l, item_starred_at = t\<rparr>"

text \<open>A server that answers every request for page \<open>p\<close> with status 200 and the items
  \<open>P p\<close>, and knows no user.\<close>

definition pagedServer :: "(nat \<Rightarrow> item list) \<Rightarrow> env" where
  "pagedServer P =
     \<lparr>net = (\<lambda>u k. case u of
                StargazersUrl p n \<Rightarrow>
                  Response \<lparr>statusCode = 200, headers = [], body = Json (PStargazers (P p))\<rparr>
              | UserUrl x \<Rightarrow>
                  Response \<lparr>statusCode = 404, headers = [], body = Json (PMessage ''Not Found'')\<rparr>),
      clock = (\<lambda>u k. 0)\<rparr>"

text \<open>Pages of 100, 100 and 37 items, then nothing.\<close>

definition threePages :: "nat \<Rightarrow> item list" where
  "threePages p =
     (if p = 1 \<or> p = 2 then replicate 100 (sampleItem ''octocat'' 0)
      else if p = 3 then replicate 37 (sampleItem ''octocat'' 0)
      else [])"

text \<open>A collection that never ends: every page holds 100 items.\<close>

definition fullPages :: "nat \<Rightarrow> item list" where
  "fullPages p = replicate 100 (sampleItem ''octocat'' 0)"


text \<open>A server that answers the first attempt with 403 and exhausted quota, the reset
  lying five seconds after the client's clock, and every later attempt with an empty page.\<close>

definition limitedOnce :: env where
  "limitedOnce =
     \<lparr>net = (\<lambda>u k. if k = 0
                then Response \<lparr>statusCode = 403,
                               headers = [(''x-ratelimit-remaining'', ''0''),
                                          (''x-ratelimit-reset'', ''1700000005'')],
                               body = Json (PMessage ''API rate limit exceeded'')\<rparr>
                else Response \<lparr>statusCode = 200, headers = [], body = Json (PStargazers [])\<rparr>),
      clock = (\<lambda>u k. 1700000000000)\<rparr>"

text \<open>A server that answers 403 with quota left; the body is given.\<close>

definition forbiddenServer :: "body \<Rightarrow> env" where
  "forbiddenServer b =
     \<lparr>net = (\<lambda>u k. Response \<lparr>statusCode = 403,
                             headers = [(''x-ratelimit-remaining'', ''4999'')],
                             body = b\<rparr>),
      clock = (\<lambda>u k. 0)\<rparr>"

definition samlMessage :: string where
  "samlMessage = ''Resource protected by organization SAML enforcement.''"

text \<open>The effects of a run that settled.\<close>

fun effects :: "('a \<times> trace) option \<Rightarrow> trace" where
  "effects (Some (v, tr)) = tr"
| "effects None = []"


text \<open>Fifty stargazers with distinct logins, and a server that knows a profile for every
  login except the ones listed, for which it answers 404.\<close>

definition crowd :: "stargazer list" where
  "crowd = map (\<lambda>i. flatten (sampleItem (''u'' @ replicate i CHR ''x'') (int i))) [0..<50]"

definition profileOf :: "string \<Rightarrow> user" where
  "profileOf l = (sampleUser l)\<lparr>name := Some ''The Octocat'', followers := Some 7,
                                 public_repos := Some 3\<rparr>"

definition profileServer :: "string list \<Rightarrow> env" where
  "profileServer missing =
     \<lparr>net = (\<lambda>u k. case u of
                StargazersUrl p n \<Rightarrow>
                  Response \<lparr>statusCode = 200, headers = [], body = Json (PStargazers [])\<rparr>
              | UserUrl l \<Rightarrow>
                  if l \<in> set missing
                  then Response \<lparr>statusCode = 404, headers = [],
                                 body = Json (PMessage ''Not Found'')\<rparr>
                  else Response \<lparr>statusCode = 200, headers = [],
                                 body = Json (PUser (profileOf l))\<rparr>),
      clock = (\<lambda>u k. 0)\<rparr>"

definition threeMissing :: "string list" where
  "threeMissing = [login (crowd ! 3), login (crowd ! 17), login (crowd ! 42)]"

text \<open>How many entries of an output equal the input record at the same position.\<close>

definition unchangedCount :: "stargazer list \<Rightarrow> stargazer list \<Rightarrow> nat" where
  "unchangedCount xs ys = length (filter (\<lambda>(x, y). y = x) (zip xs ys))"

text \<open>Three stargazers in ascending order of their star, the last an organization.\<close>

definition trio :: "stargazer list" where
  "trio = [flatten (sampleItem ''alice'' 1000), flatten (sampleItem ''bob'' 2000),
           (flatten (sampleItem ''acme'' 3000))\<lparr>utype := Some ''Organization''\<rparr>]"


text \<open>A star given on 26 February 2025 at the given UTC time, and on the day before.\<close>

definition starAt :: "int \<Rightarrow> int \<Rightarrow> int \<Rightarrow> stargazer" where
  "starAt hh mm ss = flatten (sampleItem ''octocat'' (utc 2025 2 26 hh mm ss))"

definition starDayBefore :: "int \<Rightarrow> int \<Rightarrow> int \<Rightarrow> stargazer" where
  "starDayBefore hh mm ss = flatten (sampleItem ''octocat'' (utc 2025 2 25 hh mm ss))"

text \<open>\<^verbatim>\<open>--date 2025-02-26\<close>, alone and with \<^verbatim>\<open>--from 09:00 --to 17:00 --timezone UTC\<close>.\<close>

definition thatDay :: options where
  "thatDay = initialOptions\<lparr>opt_date := Some ''2025-02-26''\<rparr>"



section \<open>Lemmas on requests and pagination\<close>

lemma ceilDiv1000_ceiling: "ceilDiv1000 x = \<lceil>real_of_int x / 1000\<rceil>"
  unfolding ceilDiv1000_def using ceiling_divide_eq_div[of x 1000, where ?'a = real] by simp

lemma requested_append [simp]: "requested (a @ b) = requested a @ requested b"
  by (induction a rule: requested.induct) auto

lemma logged_append [simp]: "logged (a @ b) = logged a @ logged b"
  by (induction a rule: logged.induct) auto

lemma batchPauses_append [simp]: "batchPauses (a @ b) = batchPauses a + batchPauses b"
  by (simp add: batchPauses_def)

lemma catchLines_append [simp]: "catchLines (a @ b) = catchLines a @ catchLines b"
  by (simp add: catchLines_def)

lemma makeRequest_settles:
  assumes "\<not> rateLimited (net E u k)"
  shows "\<exists>r. makeRequest E u k tr = Some (r, tr @ [Request u])"
  using assms
  by (subst makeRequest.simps) (auto split: exchange.splits)

lemma makeRequest_retry_step:
  assumes "rateLimited (net E u k)"
  shows "makeRequest E u k tr = makeRequest E u (Suc k) (tr @ [Request u, SetTimeout RetryTimer (retryDelay E u k)])"
  using assms
  by (subst makeRequest.simps) (auto split: exchange.splits)

lemma makeRequest_retries:
  assumes "\<forall>i<n. rateLimited (net E u (k + i))"
  shows "makeRequest E u k tr = makeRequest E u (k + n) (tr @ retryEffects E u k n)"
  using assms
proof (induction n arbitrary: tr)
  case 0
  then show ?case by (simp add: retryEffects_def)
next
  case (Suc n)
  have "makeRequest E u k tr = makeRequest E u (k + n) (tr @ retryEffects E u k n)"
    using Suc by simp
  also have "\<dots> = makeRequest E u (Suc (k + n)) ((tr @ retryEffects E u k n) @ [Request u, SetTimeout RetryTimer (retryDelay E u (k + n))])"
    using Suc.prems by (intro makeRequest_retry_step) simp
  finally show ?case by (simp add: retryEffects_def)
qed

lemma makeRequest_shape:
  assumes "makeRequest E u k tr = Some y"
  shows "\<exists>t. snd y = tr @ t \<and> wireOnly u t \<and>
             (\<forall>tr0. makeRequest E u k tr0 = Some (fst y, tr0 @ t))"
proof (rule makeRequest.raw_induct[where P = "\<lambda>E u k tr y. \<exists>t. snd y = tr @ t \<and>
          wireOnly u t \<and> (\<forall>tr0. makeRequest E u k tr0 = Some (fst y, tr0 @ t))",
        OF _ assms])
  fix mk :: "env \<Rightarrow> url \<Rightarrow> nat \<Rightarrow> trace \<Rightarrow> ((error + reply) \<times> trace) option"
  fix E u k tr y
  assume IH: "\<And>E u k tr y. mk E u k tr = Some y \<Longrightarrow> \<exists>t. snd y = tr @ t \<and>
          wireOnly u t \<and> (\<forall>tr0. makeRequest E u k tr0 = Some (fst y, tr0 @ t))"
  assume body: "(case net E u k of
        TransportError m \<Rightarrow> Some (Inl (Transport m), tr @ [Request u])
      | Response res \<Rightarrow>
          if 200 \<le> statusCode res \<and> statusCode res < 300 then
            Some (parseBody res, tr @ [Request u])
          else if statusCode res = 403 then
            (if map_of (headers res) ''x-ratelimit-remaining'' = Some ''0'' then
               mk E u (Suc k)
                 (tr @ [Request u,
                        SetTimeout RetryTimer (map_option (\<lambda>s. s * 1000)
                          (waitTime (map_of (headers res) ''x-ratelimit-reset'') (clock E u k)))])
             else Some (Inl (forbidden res), tr @ [Request u]))
          else Some (Inl (HttpError (statusCode res) (body res)), tr @ [Request u])) = Some y"
  show "\<exists>t. snd y = tr @ t \<and> wireOnly u t \<and>
             (\<forall>tr0. makeRequest E u k tr0 = Some (fst y, tr0 @ t))"
  proof (cases "rateLimited (net E u k)")
    case True
    then obtain res where res: "net E u k = Response res" "statusCode res = 403"
        "map_of (headers res) ''x-ratelimit-remaining'' = Some ''0''"
      by (cases "net E u k") auto
    let ?d = "SetTimeout RetryTimer (retryDelay E u k)"
    from body res have "mk E u (Suc k) (tr @ [Request u, ?d]) = Some y" by simp
    from IH[OF this] obtain t where t: "snd y = (tr @ [Request u, ?d]) @ t"
      "wireOnly u t"
      "\<forall>tr0. makeRequest E u (Suc k) tr0 = Some (fst y, tr0 @ t)" by blast
    have "\<forall>tr0. makeRequest E u k tr0 = Some (fst y, tr0 @ ([Request u, ?d] @ t))"
      using t(3) makeRequest_retry_step[OF True] by simp
    moreover have "wireOnly u ([Request u, ?d] @ t)"
      using t(2) by (simp add: wireOnly_def batchPauses_def)
    moreover have "snd y = tr @ ([Request u, ?d] @ t)" using t(1) by simp
    ultimately show ?thesis by blast
  next
    case False
    from makeRequest_settles[OF False] have all: "\<forall>tr0. \<exists>r. makeRequest E u k tr0 = Some (r, tr0 @ [Request u])"
      by blast
    from False body have y: "snd y = tr @ [Request u]"
      by (auto split: exchange.splits if_splits)
    have "\<forall>tr0. makeRequest E u k tr0 = Some (fst y, tr0 @ [Request u])"
      using False body by (subst makeRequest.simps) (auto split: exchange.splits if_splits)
    with y show ?thesis
      by (intro exI[of _ "[Request u]"]) (auto simp: wireOnly_def batchPauses_def)
  qed
qed

lemma makeRequest_anywhere:
  assumes "makeRequest E u k tr = Some (r, tr')"
  obtains t where "tr' = tr @ t" "set (requested t) = {u}"
     "\<And>tr0. makeRequest E u k tr0 = Some (r, tr0 @ t)"
  using makeRequest_shape[OF assms] by (auto simp: wireOnly_def)

lemma makeRequest_quiet:
  assumes "makeRequest E u k tr = Some (r, tr')"
  obtains t where "tr' = tr @ t" "logged t = []" "batchPauses t = 0"
     "\<And>tr0. makeRequest E u k tr0 = Some (r, tr0 @ t)"
  using makeRequest_shape[OF assms] by (auto simp: wireOnly_def)

lemma fetchOutcome_run:
  assumes "fetchOutcome E u = Some r"
  obtains t where "set (requested t) = {u}" "\<And>tr. makeRequest E u 0 tr = Some (r, tr @ t)"
proof -
  from assms obtain tr' where "makeRequest E u 0 [] = Some (r, tr')"
    by (auto simp: fetchOutcome_def)
  from makeRequest_anywhere[OF this] show ?thesis using that by metis
qed


lemma makeRequest_needs_other_answer:
  assumes "makeRequest E u k tr = Some y"
  shows "\<exists>i\<ge>k. \<not> rateLimited (net E u i)"
proof (rule makeRequest.raw_induct[where P = "\<lambda>E u k tr y. \<exists>i\<ge>k. \<not> rateLimited (net E u i)",
        OF _ assms])
  fix mk :: "env \<Rightarrow> url \<Rightarrow> nat \<Rightarrow> trace \<Rightarrow> ((error + reply) \<times> trace) option"
  fix E u k tr y
  assume IH: "\<And>E u k tr y. mk E u k tr = Some y \<Longrightarrow> \<exists>i\<ge>k. \<not> rateLimited (net E u i)"
  assume body: "(case net E u k of
        TransportError m \<Rightarrow> Some (Inl (Transport m), tr @ [Request u])
      | Response res \<Rightarrow>
          if 200 \<le> statusCode res \<and> statusCode res < 300 then
            Some (parseBody res, tr @ [Request u])
          else if statusCode res = 403 then
            (if map_of (headers res) ''x-ratelimit-remaining'' = Some ''0'' then
               mk E u (Suc k)
                 (tr @ [Request u,
                        SetTimeout RetryTimer (map_option (\<lambda>s. s * 1000)
                          (waitTime (map_of (headers res) ''x-ratelimit-reset'') (clock E u k)))])
             else Some (Inl (forbidden res), tr @ [Request u]))
          else Some (Inl (HttpError (statusCode res) (body res)), tr @ [Request u])) = Some y"
  show "\<exists>i\<ge>k. \<not> rateLimited (net E u i)"
  proof (cases "rateLimited (net E u k)")
    case True
    then obtain res where res: "net E u k = Response res" "statusCode res = 403"
        "map_of (headers res) ''x-ratelimit-remaining'' = Some ''0''"
      by (cases "net E u k") auto
    from body res have "\<exists>t. mk E u (Suc k) t = Some y" by auto
    then obtain i where "Suc k \<le> i" "\<not> rateLimited (net E u i)" using IH by blast
    then show ?thesis by (intro exI[of _ i]) simp
  next
    case False
    then show ?thesis by blast
  qed
qed

lemma makeRequest_never_settles:
  assumes "\<forall>i. rateLimited (net E u i)"
  shows "makeRequest E u k tr = None"
proof (cases "makeRequest E u k tr")
  case None
  then show ?thesis .
next
  case (Some y)
  from makeRequest_needs_other_answer[OF this] assms show ?thesis by blast
qed

lemma str_includes_iff: "str_includes s sub \<longleftrightarrow> (\<exists>p q. s = p @ sub @ q)"
proof (induction s)
  case Nil
  then show ?case by auto
next
  case (Cons c cs)
  show ?case
  proof
    assume "str_includes (c # cs) sub"
    then consider "take (length sub) (c # cs) = sub" | "str_includes cs sub" by auto
    then show "\<exists>p q. c # cs = p @ sub @ q"
    proof cases
      case 1
      then have "c # cs = [] @ sub @ drop (length sub) (c # cs)"
        by (metis append_Nil append_take_drop_id)
      then show ?thesis by blast
    next
      case 2
      with Cons obtain p q where "cs = p @ sub @ q" by blast
      then have "c # cs = (c # p) @ sub @ q" by simp
      then show ?thesis by blast
    qed
  next
    assume "\<exists>p q. c # cs = p @ sub @ q"
    then obtain p q where pq: "c # cs = p @ sub @ q" by blast
    show "str_includes (c # cs) sub"
    proof (cases p)
      case Nil
      with pq have "take (length sub) (c # cs) = sub" by simp
      then show ?thesis by simp
    next
      case (Cons a p')
      with pq have "cs = p' @ sub @ q" by simp
      with Cons.IH show ?thesis by auto
    qed
  qed
qed

lemma retryDelay_formula:
  assumes "net E u k = Response res"
      and "parseInt (map_of (headers res) ''x-ratelimit-reset'') 0 = Some secs"
      and "\<bar>secs * 1000\<bar> \<le> 8640000000000000"
  shows "retryDelay E u k = Some ((\<lceil>real_of_int (secs * 1000 - clock E u k) / 1000\<rceil> + 60) * 1000)"
  using assms by (simp add: waitTime_def timeClip_def ceilDiv1000_ceiling)

lemma page_fetched:
  assumes "pageData E p = Some d"
  obtains t rep where "set (requested t) = {StargazersUrl p 100}" "data rep = d"
    "\<And>tr. makeRequest E (StargazersUrl p 100) 0 tr = Some (Inr rep, tr @ t)"
proof -
  from assms obtain rep where rep: "resolved (makeRequest E (StargazersUrl p 100) 0 []) = Some rep"
    "data rep = d" by (auto simp: pageData_def)
  then obtain tr' where "makeRequest E (StargazersUrl p 100) 0 [] = Some (Inr rep, tr')"
    by (cases "makeRequest E (StargazersUrl p 100) 0 []" rule: resolved.cases) auto
  from makeRequest_anywhere[OF this] rep(2) show ?thesis using that by metis
qed

lemma fetchPages_last:
  assumes "pageData E p = Some (PStargazers [])"
  shows "\<exists>t. set (requested t) = {StargazersUrl p 100} \<and>
             fetchPages E limit p acc tr = Some (Inr acc, tr @ t)"
proof -
  from page_fetched[OF assms] obtain t rep where t: "set (requested t) = {StargazersUrl p 100}"
    "data rep = PStargazers []"
    "\<And>tr. makeRequest E (StargazersUrl p 100) 0 tr = Some (Inr rep, tr @ t)" by blast
  have "fetchPages E limit p acc tr = Some (Inr acc, tr @ t)"
    by (subst fetchPages.simps) (simp add: t)
  with t(1) show ?thesis by blast
qed

lemma fetchPages_limit:
  assumes "pageData E p = Some (PStargazers xs)" "xs \<noteq> []"
      and "limitReached limit (length (acc @ map flatten xs))"
  shows "\<exists>t. set (requested t) = {StargazersUrl p 100} \<and>
             fetchPages E limit p acc tr
               = Some (Inr (trimToLimit limit (acc @ map flatten xs)), tr @ t)"
proof -
  from page_fetched[OF assms(1)] obtain t rep where t: "set (requested t) = {StargazersUrl p 100}"
    "data rep = PStargazers xs"
    "\<And>tr. makeRequest E (StargazersUrl p 100) 0 tr = Some (Inr rep, tr @ t)" by blast
  have "fetchPages E limit p acc tr
               = Some (Inr (trimToLimit limit (acc @ map flatten xs)), tr @ t)"
    using assms(2,3) by (subst fetchPages.simps) (simp add: t)
  with t(1) show ?thesis by blast
qed

lemma fetchPages_next:
  assumes "pageData E p = Some (PStargazers xs)" "xs \<noteq> []"
      and "\<not> limitReached limit (length (acc @ map flatten xs))"
  shows "\<exists>t. set (requested t) = {StargazersUrl p 100} \<and>
             fetchPages E limit p acc tr
               = fetchPages E limit (Suc p) (acc @ map flatten xs) (tr @ t)"
proof -
  from page_fetched[OF assms(1)] obtain t rep where t: "set (requested t) = {StargazersUrl p 100}"
    "data rep = PStargazers xs"
    "\<And>tr. makeRequest E (StargazersUrl p 100) 0 tr = Some (Inr rep, tr @ t)" by blast
  have "fetchPages E limit p acc tr
               = fetchPages E limit (Suc p) (acc @ map flatten xs) (tr @ (t @ [SetTimeout PageTimer (Some 1000)]))"
    using assms(2,3) by (subst fetchPages.simps) (simp add: t)
  moreover have "set (requested (t @ [SetTimeout PageTimer (Some 1000)])) = {StargazersUrl p 100}"
    using t(1) by simp
  ultimately show ?thesis by blast
qed

lemma pagesFrom_0 [simp]: "pagesFrom P j 0 = []"
  by (simp add: pagesFrom_def)

lemma pagesFrom_Suc: "pagesFrom P j (Suc n) = pagesFrom P j n @ map flatten (P (j + n))"
  by (simp add: pagesFrom_def)

lemma pagesFrom_first: "pagesFrom P j (Suc n) = map flatten (P j) @ pagesFrom P (Suc j) n"
proof -
  have *: "[j..<j + Suc n] = j # [Suc j..<Suc j + n]"
    by (simp add: upt_conv_Cons del: upt_Suc)
  show ?thesis unfolding pagesFrom_def * by simp
qed

lemma length_pagesFrom_mono: "m \<le> n \<Longrightarrow> length (pagesFrom P j m) \<le> length (pagesFrom P j n)"
proof (induction n)
  case 0 then show ?case by simp
next
  case (Suc n)
  then show ?case by (cases "m = Suc n") (auto simp: pagesFrom_Suc)
qed

lemma limitReached_mono: "limitReached limit m \<Longrightarrow> m \<le> n \<Longrightarrow> limitReached limit n"
  by (auto simp: limitReached_def split: option.splits)

lemma fetchPages_skip:
  assumes "\<forall>p. j \<le> p \<and> p < j + n \<longrightarrow> pageData E p = Some (PStargazers (P p)) \<and> P p \<noteq> []"
      and "\<not> limitReached limit (length (acc @ pagesFrom P j n))"
  shows "\<exists>t. set (requested t) = (\<lambda>p. StargazersUrl p 100) ` {j..<j + n} \<and>
             fetchPages E limit j acc tr
               = fetchPages E limit (j + n) (acc @ pagesFrom P j n) (tr @ t)"
  using assms
proof (induction n arbitrary: j acc tr)
  case 0
  show ?case by (intro exI[of _ "[]"]) simp
next
  case (Suc n)
  have pj: "pageData E j = Some (PStargazers (P j))" "P j \<noteq> []" using Suc.prems(1) by auto
  have "length (acc @ map flatten (P j)) \<le> length (acc @ pagesFrom P j (Suc n))"
    by (simp add: pagesFrom_first)
  with Suc.prems(2) have nl: "\<not> limitReached limit (length (acc @ map flatten (P j)))"
    using limitReached_mono by blast
  from fetchPages_next[OF pj nl] obtain t1 where t1: "set (requested t1) = {StargazersUrl j 100}"
    "fetchPages E limit j acc tr = fetchPages E limit (Suc j) (acc @ map flatten (P j)) (tr @ t1)"
    by blast
  have "\<forall>p. Suc j \<le> p \<and> p < Suc j + n \<longrightarrow> pageData E p = Some (PStargazers (P p)) \<and> P p \<noteq> []"
    using Suc.prems(1) by auto
  moreover have "\<not> limitReached limit (length ((acc @ map flatten (P j)) @ pagesFrom P (Suc j) n))"
    using Suc.prems(2) by (simp add: pagesFrom_first)
  ultimately obtain t2 where t2: "set (requested t2) = (\<lambda>p. StargazersUrl p 100) ` {Suc j..<Suc j + n}"
    "fetchPages E limit (Suc j) (acc @ map flatten (P j)) (tr @ t1)
       = fetchPages E limit (Suc j + n) ((acc @ map flatten (P j)) @ pagesFrom P (Suc j) n) ((tr @ t1) @ t2)"
    using Suc.IH[of "Suc j" "acc @ map flatten (P j)" "tr @ t1"] by blast
  have "{j..<j + Suc n} = insert j {Suc j..<Suc j + n}" by auto
  then have "set (requested (t1 @ t2)) = (\<lambda>p. StargazersUrl p 100) ` {j..<j + Suc n}"
    using t1(1) t2(1) by simp
  moreover have "fetchPages E limit j acc tr
      = fetchPages E limit (j + Suc n) (acc @ pagesFrom P j (Suc n)) (tr @ (t1 @ t2))"
    using t1(2) t2(2) by (simp add: pagesFrom_first)
  ultimately show ?case by blast
qed

lemma getStargazers_exhausts:
  assumes "\<forall>p\<in>{1..k}. pageData E p = Some (PStargazers (P p)) \<and> P p \<noteq> []"
      and "pageData E (Suc k) = Some (PStargazers [])"
      and "\<not> limitReached limit (length (pagesFrom P 1 k))"
  shows "\<exists>t. getStargazers E limit tr = Some (Inr (pagesFrom P 1 k), tr @ t) \<and>
             set (requested t) = (\<lambda>p. StargazersUrl p 100) ` {1..Suc k}"
proof -
  have "\<forall>p. 1 \<le> p \<and> p < 1 + k \<longrightarrow> pageData E p = Some (PStargazers (P p)) \<and> P p \<noteq> []"
    using assms(1) by auto
  moreover have "\<not> limitReached limit (length ([] @ pagesFrom P 1 k))" using assms(3) by simp
  ultimately obtain t1 where t1: "set (requested t1) = (\<lambda>p. StargazersUrl p 100) ` {1..<1 + k}"
    "fetchPages E limit 1 [] tr = fetchPages E limit (1 + k) ([] @ pagesFrom P 1 k) (tr @ t1)"
    using fetchPages_skip[of 1 k E P limit "[]" tr] by blast
  from fetchPages_last[OF assms(2), of limit "pagesFrom P 1 k" "tr @ t1"] obtain t2 where
    t2: "set (requested t2) = {StargazersUrl (Suc k) 100}"
    "fetchPages E limit (Suc k) (pagesFrom P 1 k) (tr @ t1) = Some (Inr (pagesFrom P 1 k), (tr @ t1) @ t2)"
    by blast
  have "{1..Suc k} = insert (Suc k) {1..<1 + k}" by auto
  then have "set (requested (t1 @ t2)) = (\<lambda>p. StargazersUrl p 100) ` {1..Suc k}"
    using t1(1) t2(1) by simp
  moreover have "getStargazers E limit tr = Some (Inr (pagesFrom P 1 k), tr @ (t1 @ t2))"
    using t1(2) t2(2) by (simp add: getStargazers_def)
  ultimately show ?thesis by blast
qed

lemma getStargazers_stops_at_limit:
  assumes "\<forall>p\<in>{1..Suc k}. pageData E p = Some (PStargazers (P p)) \<and> P p \<noteq> []"
      and "\<not> limitReached limit (length (pagesFrom P 1 k))"
      and "limitReached limit (length (pagesFrom P 1 (Suc k)))"
  shows "\<exists>t. getStargazers E limit tr
               = Some (Inr (trimToLimit limit (pagesFrom P 1 (Suc k))), tr @ t) \<and>
             set (requested t) = (\<lambda>p. StargazersUrl p 100) ` {1..Suc k}"
proof -
  have "\<forall>p. 1 \<le> p \<and> p < 1 + k \<longrightarrow> pageData E p = Some (PStargazers (P p)) \<and> P p \<noteq> []"
    using assms(1) by auto
  moreover have "\<not> limitReached limit (length ([] @ pagesFrom P 1 k))" using assms(2) by simp
  ultimately obtain t1 where t1: "set (requested t1) = (\<lambda>p. StargazersUrl p 100) ` {1..<1 + k}"
    "fetchPages E limit 1 [] tr = fetchPages E limit (1 + k) ([] @ pagesFrom P 1 k) (tr @ t1)"
    using fetchPages_skip[of 1 k E P limit "[]" tr] by blast
  have pk: "pageData E (Suc k) = Some (PStargazers (P (Suc k)))" "P (Suc k) \<noteq> []"
    using assms(1) by auto
  have "limitReached limit (length (pagesFrom P 1 k @ map flatten (P (Suc k))))"
    using assms(3) by (simp add: pagesFrom_Suc)
  from fetchPages_limit[OF pk this, of "tr @ t1"] obtain t2 where
    t2: "set (requested t2) = {StargazersUrl (Suc k) 100}"
    "fetchPages E limit (Suc k) (pagesFrom P 1 k) (tr @ t1)
       = Some (Inr (trimToLimit limit (pagesFrom P 1 k @ map flatten (P (Suc k)))), (tr @ t1) @ t2)"
    by blast
  have "{1..Suc k} = insert (Suc k) {1..<1 + k}" by auto
  then have "set (requested (t1 @ t2)) = (\<lambda>p. StargazersUrl p 100) ` {1..Suc k}"
    using t1(1) t2(1) by simp
  moreover have "getStargazers E limit tr
      = Some (Inr (trimToLimit limit (pagesFrom P 1 (Suc k))), tr @ (t1 @ t2))"
    using t1(2) t2(2) by (simp add: getStargazers_def pagesFrom_Suc)
  ultimately show ?thesis by blast
qed

lemma pageData_pagedServer [simp]: "pageData (pagedServer P) p = Some (PStargazers (P p))"
  unfolding pageData_def
  by (subst makeRequest.simps) (simp add: pagedServer_def parseBody_def)

lemma take_positive_limit:
  assumes "0 < l" "l \<le> int (length xs)"
  shows "trimToLimit (Some l) xs = take (nat l) xs" "length (take (nat l) xs) = nat l"
  using assms by (auto simp: trimToLimit_def sliceTo_def)

lemma login_flatten [simp]: "login (flatten it) = login (item_user it)"
  by (simp add: flatten_def)



section \<open>Lemmas on enrichment\<close>

lemma fetchOutcome_quiet:
  assumes "fetchOutcome E u = Some r"
  obtains t where "logged t = []" "batchPauses t = 0"
    "\<And>tr. makeRequest E u 0 tr = Some (r, tr @ t)"
proof -
  from assms obtain tr' where "makeRequest E u 0 [] = Some (r, tr')"
    by (auto simp: fetchOutcome_def)
  from makeRequest_quiet[OF this] show ?thesis using that by metis
qed

lemma spread_null [simp]: "spread s PNull = s"
  by (simp add: spread_def)

lemma enrichOne_run:
  assumes "fetchOutcome E (UserUrl (login s)) \<noteq> None"
  shows "\<exists>t. enrichOne E s pc tr = Some (expectedEntry E s, Suc pc, tr @ t)
             \<and> catchLines t = [] \<and> batchPauses t = 0"
proof -
  from assms obtain r where r: "fetchOutcome E (UserUrl (login s)) = Some r" by auto
  from fetchOutcome_quiet[OF r] obtain t where t: "logged t = []" "batchPauses t = 0"
    "\<And>tr. makeRequest E (UserUrl (login s)) 0 tr = Some (r, tr @ t)" by blast
  show ?thesis
  proof (cases r)
    case (Inl e)
    let ?t = "t @ [Log (CouldNotFetch (login s) e), Log (EnrichOk (pc + 1) (login s))]"
    have "enrichOne E s pc tr = Some (expectedEntry E s, Suc pc, tr @ ?t)"
      using t(3) r Inl by (simp add: enrichOne_def getDetailedUserInfo_def expectedEntry_def)
    moreover have "catchLines ?t = []" "batchPauses ?t = 0"
      using t(1,2) by (simp_all add: catchLines_def batchPauses_def)
    ultimately show ?thesis by blast
  next
    case (Inr rep)
    let ?t = "t @ [Log (EnrichOk (pc + 1) (login s))]"
    have "enrichOne E s pc tr = Some (expectedEntry E s, Suc pc, tr @ ?t)"
      using t(3) r Inr by (simp add: enrichOne_def getDetailedUserInfo_def expectedEntry_def)
    moreover have "catchLines ?t = []" "batchPauses ?t = 0"
      using t(1,2) by (simp_all add: catchLines_def batchPauses_def)
    ultimately show ?thesis by blast
  qed
qed

lemma enrichBatch_run:
  assumes "\<forall>s\<in>set batch. fetchOutcome E (UserUrl (login s)) \<noteq> None"
  shows "\<exists>t. enrichBatch E batch pc tr = Some (map (expectedEntry E) batch, pc + length batch, tr @ t)
             \<and> catchLines t = [] \<and> batchPauses t = 0"
  using assms
proof (induction batch arbitrary: pc tr)
  case Nil
  show ?case by (intro exI[of _ "[]"]) (simp add: catchLines_def batchPauses_def)
next
  case (Cons s batch)
  from Cons.prems have "fetchOutcome E (UserUrl (login s)) \<noteq> None" by simp
  from enrichOne_run[OF this, of pc tr] obtain t1 where
    t1: "enrichOne E s pc tr = Some (expectedEntry E s, Suc pc, tr @ t1)"
        "catchLines t1 = []" "batchPauses t1 = 0" by blast
  from Cons.prems have "\<forall>s\<in>set batch. fetchOutcome E (UserUrl (login s)) \<noteq> None" by simp
  from Cons.IH[OF this, of "Suc pc" "tr @ t1"] obtain t2 where
    t2: "enrichBatch E batch (Suc pc) (tr @ t1)
           = Some (map (expectedEntry E) batch, Suc pc + length batch, (tr @ t1) @ t2)"
        "catchLines t2 = []" "batchPauses t2 = 0" by blast
  have "enrichBatch E (s # batch) pc tr
      = Some (map (expectedEntry E) (s # batch), pc + length (s # batch), tr @ (t1 @ t2))"
    using t1(1) t2(1) by simp
  moreover have "catchLines (t1 @ t2) = []" "batchPauses (t1 @ t2) = 0"
    using t1 t2 by simp_all
  ultimately show ?case by blast
qed

lemma enrichFrom_run:
  assumes "\<forall>s\<in>set stargazers. fetchOutcome E (UserUrl (login s)) \<noteq> None"
  shows "\<exists>t. enrichFrom E stargazers i acc pc tr
               = Some (acc @ map (expectedEntry E) (drop i stargazers), tr @ t)
             \<and> catchLines t = []
             \<and> batchPauses t = (if i < length stargazers then (length stargazers - i - 1) div 50 else 0)"
  using assms
proof (induction E stargazers i acc pc tr rule: enrichFrom.induct)
  case (1 E stargazers i acc pc tr)
  show ?case
  proof (cases "i < length stargazers")
    case False
    then have "enrichFrom E stargazers i acc pc tr = Some (acc, tr)"
      by (subst enrichFrom.simps) simp
    with False show ?thesis
      by (intro exI[of _ "[]"]) (simp add: catchLines_def batchPauses_def)
  next
    case True
    let ?batch = "take 50 (drop i stargazers)"
    have "\<forall>s\<in>set ?batch. fetchOutcome E (UserUrl (login s)) \<noteq> None"
      using "1.prems" by (meson in_set_dropD in_set_takeD)
    from enrichBatch_run[OF this, of pc tr] obtain t1 where
      t1: "enrichBatch E ?batch pc tr = Some (map (expectedEntry E) ?batch, pc + length ?batch, tr @ t1)"
          "catchLines t1 = []" "batchPauses t1 = 0" by blast
    let ?pause = "if i + 50 < length stargazers then [SetTimeout BatchTimer (Some 2000)] else []"
    let ?tr1 = "if i + 50 < length stargazers
                then (tr @ t1) @ [SetTimeout BatchTimer (Some 2000)] else tr @ t1"
    have tr1: "?tr1 = tr @ t1 @ ?pause" by simp
    from "1.IH"[OF True t1(1) refl refl "1.prems"]
    obtain t2 where
      t2: "enrichFrom E stargazers (i + 50) (acc @ map (expectedEntry E) ?batch) (pc + length ?batch) ?tr1
             = Some ((acc @ map (expectedEntry E) ?batch) @ map (expectedEntry E) (drop (i + 50) stargazers),
                     ?tr1 @ t2)"
          "catchLines t2 = []"
          "batchPauses t2 = (if i + 50 < length stargazers
                             then (length stargazers - (i + 50) - 1) div 50 else 0)" by auto
    have split: "?batch @ drop (i + 50) stargazers = drop i stargazers"
      by (metis add.commute append_take_drop_id drop_drop)
    have res: "(acc @ map (expectedEntry E) ?batch) @ map (expectedEntry E) (drop (i + 50) stargazers)
        = acc @ map (expectedEntry E) (drop i stargazers)"
      by (metis append.assoc map_append split)
    have run: "enrichFrom E stargazers i acc pc tr
        = Some (acc @ map (expectedEntry E) (drop i stargazers), tr @ (t1 @ ?pause @ t2))"
      using True t1(1) t2(1) res tr1
      by (subst enrichFrom.simps) simp
    have c: "catchLines (t1 @ ?pause @ t2) = []"
      using t1(2) t2(2) by (simp add: catchLines_def)
    have p: "batchPauses (t1 @ ?pause @ t2) = (length stargazers - i - 1) div 50"
    proof (cases "i + 50 < length stargazers")
      case True
      then obtain m where m: "length stargazers = Suc ((i + 50) + m)"
        using less_iff_Suc_add by auto
      have "(length stargazers - i - 1) div 50 = Suc ((length stargazers - (i + 50) - 1) div 50)"
        unfolding m by simp
      with True t1(3) t2(3) show ?thesis by (simp add: batchPauses_def)
    next
      case False
      with True have "length stargazers - i - 1 < 50" by simp
      with False t1(3) t2(3) show ?thesis by (simp add: batchPauses_def)
    qed
    from run c p True show ?thesis by auto
  qed
qed

lemma getDetailedUserInfo_resolves:
  assumes "getDetailedUserInfo E username tr = Some (r, tr')"
  shows "\<exists>d. r = Inr d \<and> catchLines tr' = catchLines tr"
proof -
  from assms obtain r1 tr1 where m: "makeRequest E (UserUrl username) 0 tr = Some (r1, tr1)"
    by (cases "makeRequest E (UserUrl username) 0 tr") (auto simp: getDetailedUserInfo_def)
  from makeRequest_quiet[OF m] obtain t where t: "tr1 = tr @ t" "logged t = []" by blast
  then have "catchLines tr1 = catchLines tr" by (simp add: catchLines_def)
  with assms m show ?thesis
    by (cases r1) (auto simp: getDetailedUserInfo_def catchLines_def)
qed

lemma enrichOne_no_catch:
  assumes "enrichOne E s pc tr = Some (r, pc', tr')"
  shows "catchLines tr' = catchLines tr"
proof -
  from assms obtain r1 tr1 where g: "getDetailedUserInfo E (login s) tr = Some (r1, tr1)"
    by (cases "getDetailedUserInfo E (login s) tr") (auto simp: enrichOne_def)
  from getDetailedUserInfo_resolves[OF g] obtain d where "r1 = Inr d" "catchLines tr1 = catchLines tr"
    by blast
  with assms g show ?thesis by (auto simp: enrichOne_def catchLines_def)
qed

lemma enrichBatch_no_catch:
  assumes "enrichBatch E batch pc tr = Some (rs, pc', tr')"
  shows "catchLines tr' = catchLines tr"
  using assms
proof (induction batch arbitrary: pc tr rs pc' tr')
  case Nil
  then show ?case by simp
next
  case (Cons s batch)
  from Cons.prems obtain r pc1 tr1 where o: "enrichOne E s pc tr = Some (r, pc1, tr1)"
    by (cases "enrichOne E s pc tr") auto
  with Cons.prems obtain rs1 where b: "enrichBatch E batch pc1 tr1 = Some (rs1, pc', tr')"
    by (cases "enrichBatch E batch pc1 tr1") auto
  from Cons.IH[OF b] enrichOne_no_catch[OF o] show ?case by simp
qed

lemma enrichFrom_no_catch:
  assumes "enrichFrom E stargazers i acc pc tr = Some (out, tr')"
  shows "catchLines tr' = catchLines tr"
  using assms
proof (induction E stargazers i acc pc tr rule: enrichFrom.induct)
  case (1 E stargazers i acc pc tr)
  show ?case
  proof (cases "i < length stargazers")
    case False
    with "1.prems" show ?thesis by (subst (asm) enrichFrom.simps) simp
  next
    case True
    let ?batch = "take 50 (drop i stargazers)"
    from "1.prems" True obtain rs pc1 tr1 where
      b: "enrichBatch E ?batch pc tr = Some (rs, pc1, tr1)"
      by (subst (asm) enrichFrom.simps) (cases "enrichBatch E ?batch pc tr", auto)
    let ?tr1 = "if i + 50 < length stargazers
                then tr1 @ [SetTimeout BatchTimer (Some 2000)] else tr1"
    from "1.prems" True b have
      "enrichFrom E stargazers (i + 50) (acc @ rs) pc1 ?tr1 = Some (out, tr')"
      by (subst (asm) enrichFrom.simps) simp
    from "1.IH"[OF True b refl refl this] have "catchLines tr' = catchLines ?tr1" .
    also have "\<dots> = catchLines tr1" by (simp add: catchLines_def)
    also have "\<dots> = catchLines tr" using enrichBatch_no_catch[OF b] .
    finally show ?thesis .
  qed
qed

lemma fetchOutcome_profileServer:
  "fetchOutcome (profileServer F) (UserUrl l)
     = Some (if l \<in> set F then Inl (HttpError 404 (Json (PMessage ''Not Found'')))
             else Inr \<lparr>data = PUser (profileOf l), reply_headers = [], reply_status = 200\<rparr>)"
  unfolding fetchOutcome_def
  by (subst makeRequest.simps) (simp add: profileServer_def parseBody_def)

lemma unchangedCount_map: "unchangedCount xs (map f xs) = length (filter (\<lambda>x. f x = x) xs)"
  unfolding unchangedCount_def by (induction xs) auto

lemma crowd_unchanged:
  "length (filter (\<lambda>s. expectedEntry (profileServer threeMissing) s = s) crowd) = 3"
proof -
  have "expectedEntry (profileServer threeMissing) s = s \<longleftrightarrow> login s \<in> set threeMissing"
    if "followers s = None" for s
    using that
    by (auto simp: expectedEntry_def fetchOutcome_profileServer spread_def profileOf_def
        sampleUser_def dest: arg_cong[where f = followers])
  moreover have "\<forall>s\<in>set crowd. followers s = None"
    by (auto simp: crowd_def flatten_def sampleItem_def sampleUser_def)
  ultimately have "filter (\<lambda>s. expectedEntry (profileServer threeMissing) s = s) crowd
      = filter (\<lambda>s. login s \<in> set threeMissing) crowd"
    by (intro filter_cong) auto
  moreover have "length (filter (\<lambda>s. login s \<in> set threeMissing) crowd) = 3"
    by code_simp
  ultimately show ?thesis by simp
qed


section \<open>Lemmas on the report\<close>

lemma countType_lookup:
  "map_of (countType t m) k = (if k = t then Some (case map_of m t of None \<Rightarrow> 1 | Some c \<Rightarrow> c + 1)
                               else map_of m k)"
  by (induction t m rule: countType.induct) auto

lemma user_types_lookup:
  "map_of (fold (\<lambda>s m. countType (typeOrUser s) m) xs m) k
     = (let n = length (filter (\<lambda>s. typeOrUser s = k) xs)
        in case map_of m k of
             None \<Rightarrow> if n = 0 then None else Some n
           | Some c \<Rightarrow> Some (c + n))"
proof (induction xs arbitrary: m)
  case Nil
  then show ?case by (simp split: option.splits)
next
  case (Cons s xs)
  show ?case
    by (simp add: Cons.IH countType_lookup Let_def split: option.splits)
qed

lemma resort_ignores_order:
  assumes "mset ys = mset xs" "distinct (map starred_at xs)"
  shows "sort_key (\<lambda>s. - starred_at s) ys = sort_key (\<lambda>s. - starred_at s) xs"
proof -
  have "inj_on starred_at (set xs)" using assms(2) by (simp add: distinct_map)
  then have inj: "inj_on (\<lambda>s. - starred_at s) (set xs)" by (auto simp: inj_on_def)
  have "sort_key (\<lambda>s. - starred_at s) xs = sort_key (\<lambda>s. - starred_at s) ys"
    by (rule sort_key_inj_key_eq) (simp_all add: assms(1) inj)
  then show ?thesis by simp
qed

lemma filter_filter_implied:
  assumes "\<And>x. P x \<Longrightarrow> Q x"
  shows "filter P (filter Q ys) = filter P ys"
  using assms by (induction ys) auto

lemma sort_key_after_sort_key:
  assumes "\<And>x y. f x = f y \<Longrightarrow> g x = g y"
  shows "sort_key f (sort_key g xs) = sort_key f xs"
proof (rule properties_for_sort_key)
  show "mset (sort_key f xs) = mset (sort_key g xs)" by simp
next
  fix k
  have imp: "\<And>x. f k = f x \<Longrightarrow> g x = g k" using assms by metis
  have "filter (\<lambda>x. f k = f x) (sort_key g xs)
      = filter (\<lambda>x. f k = f x) (filter (\<lambda>x. g x = g k) (sort_key g xs))"
    using filter_filter_implied[of "\<lambda>x. f k = f x" "\<lambda>x. g x = g k", OF imp] by simp
  also have "\<dots> = filter (\<lambda>x. f k = f x) (filter (\<lambda>x. g x = g k) xs)"
    by (simp only: sort_key_stable)
  also have "\<dots> = filter (\<lambda>x. f k = f x) xs"
    using filter_filter_implied[of "\<lambda>x. f k = f x" "\<lambda>x. g x = g k", OF imp] by simp
  finally have g: "filter (\<lambda>x. f k = f x) (sort_key g xs) = filter (\<lambda>x. f k = f x) xs" .
  have sw: "(\<lambda>x. f k = f x) = (\<lambda>x. f x = f k)" by (rule ext) (rule eq_commute)
  have "filter (\<lambda>x. f x = f k) (sort_key f xs) = filter (\<lambda>x. f x = f k) xs"
    by (rule sort_key_stable)
  then have "filter (\<lambda>x. f k = f x) (sort_key f xs) = filter (\<lambda>x. f k = f x) xs"
    unfolding sw .
  with g show "filter (\<lambda>x. f k = f x) (sort_key f xs) = filter (\<lambda>x. f k = f x) (sort_key g xs)"
    by simp
next
  show "sorted (map f (sort_key f xs))" by simp
qed

lemma resort_after_caller_sort:
  "sort_key (\<lambda>s. - starred_at s) (sort_key starred_at xs) = sort_key (\<lambda>s. - starred_at s) xs"
  "sort_key (\<lambda>s. - starred_at s) (sort_key (\<lambda>s. - starred_at s) xs)
     = sort_key (\<lambda>s. - starred_at s) xs"
  by (rule sort_key_after_sort_key; simp)+

lemma filterAndSort_sorts:
  "filterAndSortStargazers R xs (opts\<lparr>opt_sort := ''asc''\<rparr>)
     = sort_key starred_at (filteredStargazers R xs opts)"
  "filterAndSortStargazers R xs (opts\<lparr>opt_sort := ''desc''\<rparr>)
     = sort_key (\<lambda>s. - starred_at s) (filteredStargazers R xs opts)"
  by (simp_all add: filterAndSortStargazers_def filteredStargazers_def)


section \<open>Lemmas on the command line\<close>










section \<open>Lemmas on filtering\<close>

lemma filterAndSort_date_only:
  assumes "opt_date opts = Some d" "d \<noteq> []" "\<not> given (opt_from opts)" "\<not> given (opt_to opts)"
  shows "mset (filterAndSortStargazers R xs opts) = mset (filter (onDate R d) xs)"
  using assms by (simp add: filterAndSortStargazers_def filteredStargazers_def given_def Let_def)

lemma filterAndSort_window:
  assumes "opt_date opts = Some d" "d \<noteq> []" "opt_from opts = Some f" "f \<noteq> []"
      and "opt_to opts = Some t" "t \<noteq> []"
  shows "mset (filterAndSortStargazers R xs opts)
       = mset (filter (\<lambda>s. onDate R d s
                 \<and> inWindow R (Some (parseTime f)) (Some (parseTime t)) (opt_timezone opts) s) xs)"
  using assms
  by (simp add: filterAndSortStargazers_def filteredStargazers_def given_def Let_def conj_commute)





lemma isoDate_midnight:
  assumes "isoDate d = Some t0"
  shows "t0 mod 86400000 = 0"
proof -
  from assms obtain y m dd where "t0 = utc y m dd 0 0 0"
    by (auto simp: isoDate_def Let_def split: if_splits)
  then have "t0 = daysFromCivil y m dd * 86400000" by (simp add: utc_def)
  then show ?thesis by simp
qed

lemma onDate_fixedOffset:
  assumes "isoDate d = Some t0" "- 1440 < off" "off < 1440"
  shows "onDate (fixedOffset off) d s
     \<longleftrightarrow> (if 0 \<le> off then t0 else t0 - 86400000) - off * 60000 \<le> starred_at s
         \<and> starred_at s < (if 0 \<le> off then t0 else t0 - 86400000) - off * 60000 + 86400000"
proof -
  from isoDate_midnight[OF assms(1)] obtain k where k: "t0 = k * 86400000"
    by (metis mod_eq_0_iff_dvd dvd_def mult.commute)
  have "(t0 + off * 60000) div 86400000 = (if 0 \<le> off then k else k - 1)"
  proof (cases "0 \<le> off")
    case True
    then have "0 \<le> off * 60000" "off * 60000 < 86400000" using assms(3) by auto
    then have "(k * 86400000 + off * 60000) div 86400000 = k" by simp
    with True k show ?thesis by simp
  next
    case False
    then have "0 \<le> off * 60000 + 86400000" "off * 60000 + 86400000 < 86400000"
      using assms(2) by auto
    then have "((k - 1) * 86400000 + (off * 60000 + 86400000)) div 86400000 = k - 1"
      by (metis div_pos_pos_trivial add.right_neutral div_mult_self3 zero_neq_numeral)
    moreover have "(k - 1) * 86400000 + (off * 60000 + 86400000) = k * 86400000 + off * 60000"
      by (simp add: algebra_simps)
    ultimately show ?thesis using False k by simp
  qed
  then show ?thesis
    using assms(1) k by (auto simp: onDate_def fixedOffset_def Let_def algebra_simps)
qed

lemma digit_facts:
  assumes "isDigit c"
  shows "\<not> isWhiteSpace c" "c \<noteq> CHR ''-''" "c \<noteq> CHR ''+''" "digitValue c < 10"
        "digitValue c = of_char c - 48"
  using assms by (auto simp: isDigit_def isWhiteSpace_def digitValue_def)

lemma parseInt_one_digit:
  assumes "isDigit a"
  shows "parseIntString [a] 10 = Some (int (digitValue a))"
  using digit_facts[OF assms] by (simp add: parseIntString_def)

lemma parseInt_two_digits:
  assumes "isDigit a" "isDigit b"
  shows "parseIntString [a, b] 10 = Some (int (digitValue a * 10 + digitValue b))"
  using digit_facts[OF assms(1)] digit_facts[OF assms(2)] by (simp add: parseIntString_def)

lemma hour_part_parses:
  assumes "isHourPart h"
  shows "given (Some h) \<and> (\<exists>v. parseInt (Some h) 10 = Some v \<and> 0 \<le> v \<and> v \<le> 23)"
proof -
  from assms consider a where "h = [a]" "isDigit a"
    | a b where "h = [a, b]" "a = CHR ''0'' \<or> a = CHR ''1''" "isDigit b"
    | b where "h = [CHR ''2'', b]" "b \<in> set ''0123''"
    by (auto simp: isHourPart_def split: list.splits)
  then show ?thesis
  proof cases
    case 1
    with parseInt_one_digit[OF 1(2)] digit_facts(4)[OF 1(2)] show ?thesis
      by (simp add: parseInt_def given_def)
  next
    case 2
    then have da: "isDigit a" "digitValue a \<le> 1" by (auto simp: isDigit_def digitValue_def)
    from parseInt_two_digits[OF da(1) 2(3)] digit_facts(4)[OF 2(3)] da(2) 2(1) show ?thesis
      by (simp add: parseInt_def given_def)
  next
    case 3
    then have db: "isDigit b" "digitValue b \<le> 3" by (auto simp: isDigit_def digitValue_def)
    have d2: "isDigit CHR ''2''" "digitValue CHR ''2'' = 2" by (simp_all add: isDigit_def digitValue_def)
    from parseInt_two_digits[OF d2(1) db(1)] db(2) d2(2) 3(1) show ?thesis
      by (simp add: parseInt_def given_def)
  qed
qed

lemma sixty_part_parses:
  assumes "isSixtyPart m"
  shows "given (Some m) \<and> (\<exists>v. parseInt (Some m) 10 = Some v \<and> 0 \<le> v \<and> v \<le> 59)"
proof -
  from assms obtain a b where m: "m = [a, b]" "a \<in> set ''012345''" "isDigit b"
    by (auto simp: isSixtyPart_def split: list.splits)
  then have da: "isDigit a" "digitValue a \<le> 5" by (auto simp: isDigit_def digitValue_def)
  from parseInt_two_digits[OF da(1) m(3)] digit_facts(4)[OF m(3)] da(2) m(1) show ?thesis
    by (simp add: parseInt_def given_def)
qed

lemma parseTime_of_valid_format:
  assumes "isTimeFormat f"
  shows "\<exists>a. parseTime f = Some a \<and> 0 \<le> a \<and> a < 86400"
proof -
  from assms consider h m where "splitOn CHR '':'' f = [h, m]" "isHourPart h" "isSixtyPart m"
    | h m sec where "splitOn CHR '':'' f = [h, m, sec]" "isHourPart h" "isSixtyPart m" "isSixtyPart sec"
    by (auto simp: isTimeFormat_def split: list.splits)
  then show ?thesis
  proof cases
    case 1
    from hour_part_parses[OF 1(2)] obtain hv where hv: "parseInt (Some h) 10 = Some hv" "0 \<le> hv" "hv \<le> 23"
      by blast
    from sixty_part_parses[OF 1(3)] obtain mv where mv: "parseInt (Some m) 10 = Some mv" "0 \<le> mv" "mv \<le> 59"
      by blast
    have "parseTime f = Some (hv * 3600 + mv * 60 + 0)"
      using 1(1) hv(1) mv(1) by (simp add: parseTime_def part_def given_def Let_def)
    with hv mv show ?thesis by simp
  next
    case 2
    from hour_part_parses[OF 2(2)] obtain hv where hv: "parseInt (Some h) 10 = Some hv" "0 \<le> hv" "hv \<le> 23"
      by blast
    from sixty_part_parses[OF 2(3)] obtain mv where mv: "parseInt (Some m) 10 = Some mv" "0 \<le> mv" "mv \<le> 59"
      by blast
    from sixty_part_parses[OF 2(4)] obtain sv where sv: "parseInt (Some sec) 10 = Some sv" "0 \<le> sv" "sv \<le> 59"
      "given (Some sec)" by blast
    have "parseTime f = Some (hv * 3600 + mv * 60 + sv)"
      using 2(1) hv(1) mv(1) sv(1,4) by (simp add: parseTime_def part_def Let_def)
    with hv mv sv show ?thesis by simp
  qed
qed

lemma utc_noon_2025_02_26: "utc 2025 2 26 12 0 0 = 1740571200000"
  by (simp add: utc_def daysFromCivil_def)

lemma isoDate_2025_02_26: "isoDate ''2025-02-26'' = Some 1740528000000"
  by (simp add: isoDate_def isDigit_def digitValue_def daysInMonth_def utc_def daysFromCivil_def)


section \<open>The properties\<close>

text \<open>
  C1. \<^verbatim>\<open>getStargazers\<close> asks for pages of 100 records, starting with page 1. When pages
  \<open>1, \<dots>, k\<close> hold records and the limit is not reached, an empty page \<open>k + 1\<close> ends the
  run with all records of pages \<open>1, \<dots>, k\<close>, and pages \<open>1, \<dots>, k + 1\<close> are the ones
  requested. When a positive limit \<open>l\<close> is first met on page \<open>k\<close>, the run ends there with
  exactly the first \<open>l\<close> records, and pages \<open>1, \<dots>, k\<close> are the ones requested.
\<close>

theorem getStargazers_paginates:
  assumes "\<forall>p\<in>{1..k}. pageData E p = Some (PStargazers (P p)) \<and> P p \<noteq> []"
  shows "(pageData E (Suc k) = Some (PStargazers [])
            \<and> \<not> limitReached limit (length (pagesFrom P 1 k))
          \<longrightarrow> (\<exists>t. getStargazers E limit tr = Some (Inr (pagesFrom P 1 k), tr @ t)
                   \<and> set (requested t) = (\<lambda>p. StargazersUrl p 100) ` {1..Suc k}))
       \<and> (\<forall>l. 0 < k \<and> limit = Some l \<and> 0 < l
               \<and> int (length (pagesFrom P 1 (k - 1))) < l
               \<and> l \<le> int (length (pagesFrom P 1 k))
          \<longrightarrow> (\<exists>t. getStargazers E limit tr = Some (Inr (take (nat l) (pagesFrom P 1 k)), tr @ t)
                   \<and> length (take (nat l) (pagesFrom P 1 k)) = nat l
                   \<and> set (requested t) = (\<lambda>p. StargazersUrl p 100) ` {1..k}))"
proof (intro conjI allI impI)
  assume "pageData E (Suc k) = Some (PStargazers [])
            \<and> \<not> limitReached limit (length (pagesFrom P 1 k))"
  then show "\<exists>t. getStargazers E limit tr = Some (Inr (pagesFrom P 1 k), tr @ t)
                   \<and> set (requested t) = (\<lambda>p. StargazersUrl p 100) ` {1..Suc k}"
    using getStargazers_exhausts[OF assms] by blast
next
  fix l
  assume a: "0 < k \<and> limit = Some l \<and> 0 < l
               \<and> int (length (pagesFrom P 1 (k - 1))) < l
               \<and> l \<le> int (length (pagesFrom P 1 k))"
  then obtain j where j: "k = Suc j" by (cases k) auto
  have pages: "\<forall>p\<in>{1..Suc j}. pageData E p = Some (PStargazers (P p)) \<and> P p \<noteq> []"
    using assms j by simp
  have before: "\<not> limitReached limit (length (pagesFrom P 1 j))"
    using a j by (simp add: limitReached_def)
  have at: "limitReached limit (length (pagesFrom P 1 (Suc j)))"
    using a j by (simp add: limitReached_def)
  from getStargazers_stops_at_limit[OF pages before at, of tr] obtain t where
    t: "getStargazers E limit tr = Some (Inr (trimToLimit limit (pagesFrom P 1 (Suc j))), tr @ t)"
       "set (requested t) = (\<lambda>p. StargazersUrl p 100) ` {1..Suc j}" by blast
  have "trimToLimit limit (pagesFrom P 1 k) = take (nat l) (pagesFrom P 1 k)"
       "length (take (nat l) (pagesFrom P 1 k)) = nat l"
    using a take_positive_limit[of l "pagesFrom P 1 k"] by auto
  with t j
  show "\<exists>t. getStargazers E limit tr = Some (Inr (take (nat l) (pagesFrom P 1 k)), tr @ t)
                   \<and> length (take (nat l) (pagesFrom P 1 k)) = nat l
                   \<and> set (requested t) = (\<lambda>p. StargazersUrl p 100) ` {1..k}"
    by auto
qed

theorem getStargazers_paginates_witness:
  "map (\<lambda>p. length (threePages p)) [1, 2, 3, 4] = [100, 100, 37, 0]
   \<and> map_option length (resolved (getStargazers (pagedServer threePages) None [])) = Some 237
   \<and> set (requested (effects (getStargazers (pagedServer threePages) None [])))
       = {StargazersUrl 1 100, StargazersUrl 2 100, StargazersUrl 3 100, StargazersUrl 4 100}
   \<and> map_option length (resolved (getStargazers (pagedServer fullPages) (Some 150) [])) = Some 150
   \<and> set (requested (effects (getStargazers (pagedServer fullPages) (Some 150) [])))
       = {StargazersUrl 1 100, StargazersUrl 2 100}"
proof -
  have three: "\<forall>p\<in>{1..3}. pageData (pagedServer threePages) p = Some (PStargazers (threePages p))
                 \<and> threePages p \<noteq> []"
    by (auto simp: threePages_def)
  have len3: "length (pagesFrom threePages 1 3) = 237"
    by (simp add: eval_nat_numeral pagesFrom_Suc threePages_def)
  have "pageData (pagedServer threePages) (Suc 3) = Some (PStargazers [])
        \<and> \<not> limitReached None (length (pagesFrom threePages 1 3))"
    by (simp add: threePages_def limitReached_def)
  with getStargazers_paginates[OF three, of None "[]"] obtain t where
    t: "getStargazers (pagedServer threePages) None [] = Some (Inr (pagesFrom threePages 1 3), [] @ t)"
       "set (requested t) = (\<lambda>p. StargazersUrl p 100) ` {1..Suc 3}" by blast
  have s4: "{1..Suc 3} = {1, 2, 3, 4::nat}" by auto
  have a: "map_option length (resolved (getStargazers (pagedServer threePages) None [])) = Some 237"
    using t(1) len3 by simp
  have b: "set (requested (effects (getStargazers (pagedServer threePages) None [])))
       = {StargazersUrl 1 100, StargazersUrl 2 100, StargazersUrl 3 100, StargazersUrl 4 100}"
    using t s4 by simp
  have two: "\<forall>p\<in>{1..2}. pageData (pagedServer fullPages) p = Some (PStargazers (fullPages p))
                 \<and> fullPages p \<noteq> []"
    by (auto simp: fullPages_def)
  have len2: "length (pagesFrom fullPages 1 2) = 200" "length (pagesFrom fullPages 1 (2 - 1)) = 100"
    by (simp_all add: eval_nat_numeral pagesFrom_Suc fullPages_def)
  have "(0::nat) < 2 \<and> Some 150 = Some (150::int) \<and> (0::int) < 150
        \<and> int (length (pagesFrom fullPages 1 (2 - 1))) < 150
        \<and> 150 \<le> int (length (pagesFrom fullPages 1 2))"
    using len2 by simp
  with getStargazers_paginates[OF two, of "Some 150" "[]"] obtain t2 where
    t2: "getStargazers (pagedServer fullPages) (Some 150) []
           = Some (Inr (take (nat 150) (pagesFrom fullPages 1 2)), [] @ t2)"
        "length (take (nat 150) (pagesFrom fullPages 1 2)) = nat 150"
        "set (requested t2) = (\<lambda>p. StargazersUrl p 100) ` {1..2}" by blast
  have s2: "{1..2} = {1, 2::nat}" by auto
  have c: "map_option length (resolved (getStargazers (pagedServer fullPages) (Some 150) [])) = Some 150"
    using t2(1,2) by simp
  have d: "set (requested (effects (getStargazers (pagedServer fullPages) (Some 150) [])))
       = {StargazersUrl 1 100, StargazersUrl 2 100}"
    using t2(1,3) s2 by simp
  have e: "map (\<lambda>p. length (threePages p)) [1, 2, 3, 4] = [100, 100, 37, 0]"
    by (simp add: threePages_def)
  show ?thesis using e a b c d by blast
qed

text \<open>
  C2. When the \<open>k\<close>-th attempt at a URL is answered with status 403 and the header
  \<^verbatim>\<open>x-ratelimit-remaining\<close> equal to the string \<^verbatim>\<open>0\<close>, \<^verbatim>\<open>makeRequest\<close> does not reject:
  it arms a timer of \<open>waitTime * 1000\<close> milliseconds, then issues the same request again
  and settles exactly as that retried request settles. For a reset header of \<open>secs\<close>
  seconds, \<open>waitTime = \<lceil>(secs * 1000 - now) / 1000\<rceil> + 60\<close>. Once an attempt is answered
  otherwise, after \<open>n\<close> further exhausted-quota answers, the promise has settled with the
  outcome of that last exchange, which is no rate-limit error; the effects up to then are
  rounds of request and timer for the same URL, then the final request.
\<close>

theorem rate_limit_is_retried:
  assumes "net E u k = Response res"
      and "statusCode res = 403"
      and "map_of (headers res) ''x-ratelimit-remaining'' = Some ''0''"
  shows "makeRequest E u k tr
           = makeRequest E u (Suc k)
               (tr @ [Request u,
                      SetTimeout RetryTimer
                        (map_option (\<lambda>s. s * 1000)
                           (waitTime (map_of (headers res) ''x-ratelimit-reset'') (clock E u k)))])
         \<and> (\<forall>secs. parseInt (map_of (headers res) ''x-ratelimit-reset'') 0 = Some secs
                    \<and> \<bar>secs * 1000\<bar> \<le> 8640000000000000
               \<longrightarrow> waitTime (map_of (headers res) ''x-ratelimit-reset'') (clock E u k)
                     = Some (\<lceil>real_of_int (secs * 1000 - clock E u k) / 1000\<rceil> + 60))
         \<and> (\<forall>n. (\<forall>i<n. rateLimited (net E u (Suc k + i)))
                  \<and> \<not> rateLimited (net E u (Suc k + n))
               \<longrightarrow> (\<exists>r. makeRequest E u k tr
                            = Some (r, tr @ retryEffects E u k (Suc n) @ [Request u])
                        \<and> makeRequest E u (Suc k + n) [] = Some (r, [Request u])))"
proof (intro conjI allI impI)
  have lim: "rateLimited (net E u k)" using assms by simp
  have "retryDelay E u k
      = map_option (\<lambda>s. s * 1000)
          (waitTime (map_of (headers res) ''x-ratelimit-reset'') (clock E u k))"
    using assms(1) by simp
  with makeRequest_retry_step[OF lim, of tr]
  show "makeRequest E u k tr
           = makeRequest E u (Suc k)
               (tr @ [Request u,
                      SetTimeout RetryTimer
                        (map_option (\<lambda>s. s * 1000)
                           (waitTime (map_of (headers res) ''x-ratelimit-reset'') (clock E u k)))])"
    by simp
next
  fix secs
  assume "parseInt (map_of (headers res) ''x-ratelimit-reset'') 0 = Some secs
                    \<and> \<bar>secs * 1000\<bar> \<le> 8640000000000000"
  then show "waitTime (map_of (headers res) ''x-ratelimit-reset'') (clock E u k)
                     = Some (\<lceil>real_of_int (secs * 1000 - clock E u k) / 1000\<rceil> + 60)"
    by (simp add: waitTime_def timeClip_def ceilDiv1000_ceiling)
next
  fix n
  assume a: "(\<forall>i<n. rateLimited (net E u (Suc k + i))) \<and> \<not> rateLimited (net E u (Suc k + n))"
  have lim: "rateLimited (net E u k)" using assms by simp
  have all: "\<forall>i<Suc n. rateLimited (net E u (k + i))"
  proof (intro allI impI)
    fix i assume "i < Suc n"
    show "rateLimited (net E u (k + i))"
    proof (cases i)
      case 0
      with lim show ?thesis by simp
    next
      case (Suc j)
      with \<open>i < Suc n\<close> a show ?thesis by simp
    qed
  qed
  from a have fin: "\<not> rateLimited (net E u (k + Suc n))" by simp
  from makeRequest_settles[OF fin] obtain r where
    r: "makeRequest E u (k + Suc n) [] = Some (r, [] @ [Request u])" by blast
  from makeRequest_anywhere[OF this] obtain t where t: "[] @ [Request u] = [] @ t"
    "\<And>tr0. makeRequest E u (k + Suc n) tr0 = Some (r, tr0 @ t)" by blast
  then have "makeRequest E u (k + Suc n) (tr @ retryEffects E u k (Suc n))
      = Some (r, (tr @ retryEffects E u k (Suc n)) @ [Request u])" by simp
  with makeRequest_retries[OF all, of tr] r
  show "\<exists>r. makeRequest E u k tr = Some (r, tr @ retryEffects E u k (Suc n) @ [Request u])
              \<and> makeRequest E u (Suc k + n) [] = Some (r, [Request u])" by simp
qed

theorem rate_limit_is_retried_witness:
  "rateLimited (net limitedOnce (StargazersUrl 1 100) 0)
   \<and> waitTime (Some ''1700000005'') 1700000000000 = Some 65
   \<and> makeRequest limitedOnce (StargazersUrl 1 100) 0 []
       = Some (Inr \<lparr>data = PStargazers [], reply_headers = [], reply_status = 200\<rparr>,
               [Request (StargazersUrl 1 100), SetTimeout RetryTimer (Some 65000),
                Request (StargazersUrl 1 100)])"
proof -
  let ?u = "StargazersUrl 1 100"
  let ?res = "\<lparr>statusCode = 403,
               headers = [(''x-ratelimit-remaining'', ''0''), (''x-ratelimit-reset'', ''1700000005'')],
               body = Json (PMessage ''API rate limit exceeded'')\<rparr>"
  have n0: "net limitedOnce ?u 0 = Response ?res" by (simp add: limitedOnce_def)
  have s: "statusCode ?res = 403" by simp
  have h: "map_of (headers ?res) ''x-ratelimit-remaining'' = Some ''0''" by simp
  note inst = rate_limit_is_retried[OF n0 s h, of "[]"]
  have secs: "parseInt (map_of (headers ?res) ''x-ratelimit-reset'') 0 = Some 1700000005
              \<and> \<bar>1700000005 * 1000 :: int\<bar> \<le> 8640000000000000"
    by (simp add: parseInt_def parseIntString_def isWhiteSpace_def digitValue_def)
  with inst have "waitTime (map_of (headers ?res) ''x-ratelimit-reset'') (clock limitedOnce ?u 0)
      = Some (\<lceil>real_of_int (1700000005 * 1000 - clock limitedOnce ?u 0) / 1000\<rceil> + 60)"
    by blast
  then have w: "waitTime (Some ''1700000005'') 1700000000000 = Some 65"
    by (simp add: limitedOnce_def)
  have "(\<forall>i<0. rateLimited (net limitedOnce ?u (Suc 0 + i)))
        \<and> \<not> rateLimited (net limitedOnce ?u (Suc 0 + 0))"
    by (simp add: limitedOnce_def)
  with inst obtain r where
    r: "makeRequest limitedOnce ?u 0 [] = Some (r, [] @ retryEffects limitedOnce ?u 0 (Suc 0) @ [Request ?u])"
       "makeRequest limitedOnce ?u (Suc 0 + 0) [] = Some (r, [Request ?u])" by blast
  have "makeRequest limitedOnce ?u (Suc 0 + 0) []
      = Some (Inr \<lparr>data = PStargazers [], reply_headers = [], reply_status = 200\<rparr>, [Request ?u])"
    by (subst makeRequest.simps) (simp add: limitedOnce_def parseBody_def)
  with r(2) have rv: "r = Inr \<lparr>data = PStargazers [], reply_headers = [], reply_status = 200\<rparr>"
    by simp
  have "retryDelay limitedOnce ?u 0 = Some 65000"
    using w by (simp add: limitedOnce_def)
  then have "retryEffects limitedOnce ?u 0 (Suc 0) = [Request ?u, SetTimeout RetryTimer (Some 65000)]"
    by (simp add: retryEffects_def)
  with r(1) rv w show ?thesis by (simp add: limitedOnce_def)
qed

text \<open>
  C3. A 403 response whose \<^verbatim>\<open>x-ratelimit-remaining\<close> header is not \<^verbatim>\<open>0\<close> is fatal and is
  not retried (one request, no timer): when the body is an error object whose message
  contains \<^verbatim>\<open>SAML enforcement\<close>, the rejection is the SAML-enforcement error carrying that
  message; every other 403 is rejected with the HTTP error carrying the status code and
  the body.
\<close>

theorem forbidden_is_fatal:
  assumes "net E u k = Response res"
      and "statusCode res = 403"
      and "map_of (headers res) ''x-ratelimit-remaining'' \<noteq> Some ''0''"
  shows "(\<forall>m. body res = Json (PMessage m) \<and> str_includes m ''SAML enforcement''
              \<longrightarrow> makeRequest E u k tr = Some (Inl (SamlEnforcement m), tr @ [Request u]))
       \<and> ((\<forall>m. body res = Json (PMessage m) \<longrightarrow> \<not> str_includes m ''SAML enforcement'')
              \<longrightarrow> makeRequest E u k tr = Some (Inl (HttpError 403 (body res)), tr @ [Request u]))"
proof -
  have run: "makeRequest E u k tr = Some (Inl (forbidden res), tr @ [Request u])"
    using assms by (subst makeRequest.simps) simp
  have saml: "forbidden res = SamlEnforcement m"
    if "body res = Json (PMessage m)" "str_includes m ''SAML enforcement''" for m
  proof -
    from that(2) have "m \<noteq> []" by (cases m) auto
    with that show ?thesis by (simp add: forbidden_def)
  qed
  have other: "forbidden res = HttpError 403 (body res)"
    if "\<forall>m. body res = Json (PMessage m) \<longrightarrow> \<not> str_includes m ''SAML enforcement''"
    using that assms(2) by (auto simp: forbidden_def split: body.splits payload.splits)
  show ?thesis using run saml other by auto
qed

theorem forbidden_is_fatal_witness:
  "makeRequest (forbiddenServer (Json (PMessage samlMessage))) (UserUrl ''octocat'') 0 []
     = Some (Inl (SamlEnforcement samlMessage), [Request (UserUrl ''octocat'')])
   \<and> makeRequest (forbiddenServer (NotJson ''Forbidden'')) (UserUrl ''octocat'') 0 []
     = Some (Inl (HttpError 403 (NotJson ''Forbidden'')), [Request (UserUrl ''octocat'')])"
proof -
  let ?u = "UserUrl ''octocat''"
  let ?r1 = "\<lparr>statusCode = 403, headers = [(''x-ratelimit-remaining'', ''4999'')],
              body = Json (PMessage samlMessage)\<rparr>"
  let ?r2 = "\<lparr>statusCode = 403, headers = [(''x-ratelimit-remaining'', ''4999'')],
              body = NotJson ''Forbidden''\<rparr>"
  have n1: "net (forbiddenServer (Json (PMessage samlMessage))) ?u 0 = Response ?r1"
    by (simp add: forbiddenServer_def)
  have n2: "net (forbiddenServer (NotJson ''Forbidden'')) ?u 0 = Response ?r2"
    by (simp add: forbiddenServer_def)
  have s1: "statusCode ?r1 = 403" and s2: "statusCode ?r2 = 403" by simp_all
  have h1: "map_of (headers ?r1) ''x-ratelimit-remaining'' \<noteq> Some ''0''"
   and h2: "map_of (headers ?r2) ''x-ratelimit-remaining'' \<noteq> Some ''0''" by simp_all
  have inc: "body ?r1 = Json (PMessage samlMessage) \<and> str_includes samlMessage ''SAML enforcement''"
    by (simp add: samlMessage_def)
  have a: "makeRequest (forbiddenServer (Json (PMessage samlMessage))) ?u 0 []
     = Some (Inl (SamlEnforcement samlMessage), [] @ [Request ?u])"
    using forbidden_is_fatal[OF n1 s1 h1, of "[]"] inc by blast
  have "\<forall>m. body ?r2 = Json (PMessage m) \<longrightarrow> \<not> str_includes m ''SAML enforcement''" by simp
  then have b: "makeRequest (forbiddenServer (NotJson ''Forbidden'')) ?u 0 []
     = Some (Inl (HttpError 403 (body ?r2)), [] @ [Request ?u])"
    using forbidden_is_fatal[OF n2 s2 h2, of "[]"] by blast
  show ?thesis using a b by simp
qed







text \<open>
  C6. With a date and no time window, the records kept are those with
  \<open>targetDate \<le> starred_at < nextDate\<close>, compared as instants. The bounds are built from
  \<^verbatim>\<open>new Date(options.date)\<close>, which is midnight UTC of the date, moved by
  \<^verbatim>\<open>setHours(0, 0, 0, 0)\<close> to the local midnight before it. On a machine west of UTC
  that is the midnight of the day before: at UTC-5, \<^verbatim>\<open>--date 2025-02-26\<close> drops a star
  given on 2025-02-26 at 12:00 UTC (07:00 local time) and keeps one given 24 hours
  earlier. East of UTC (UTC+5:30) the same star is kept.
\<close>

theorem date_filter_west_of_utc:
  "filterAndSortStargazers (fixedOffset (- 300)) [starAt 12 0 0] thatDay = []
   \<and> localClock (fixedOffset (- 300)) (starred_at (starAt 12 0 0)) = (7, 0, 0)
   \<and> filterAndSortStargazers (fixedOffset (- 300)) [starDayBefore 12 0 0] thatDay
       = [starDayBefore 12 0 0]
   \<and> filterAndSortStargazers (fixedOffset 330) [starAt 12 0 0] thatDay = [starAt 12 0 0]"
  by code_simp




text \<open>
  C8. \<^verbatim>\<open>enrichStargazersData\<close> works through its input in batches of 50, pausing between
  batches, and a failed per-user request costs nothing but the profile: whenever every
  request settles, the function returns; the output is as long as the input; the entry at
  each position is the merge of the input record at that position with its profile, and is
  the input record itself when its request failed; and for \<open>n\<close> records the run pauses
  \<open>(n - 1) div 50\<close> times.
\<close>

theorem enrichment_keeps_every_record:
  assumes "\<forall>s\<in>set stargazers. fetchOutcome E (UserUrl (login s)) \<noteq> None"
  shows "\<exists>out t. enrichStargazersData E stargazers tr = Some (out, tr @ t)
           \<and> length out = length stargazers
           \<and> (\<forall>i<length stargazers.
                 out ! i = expectedEntry E (stargazers ! i)
                 \<and> (fetchFails E (stargazers ! i) \<longrightarrow> out ! i = stargazers ! i))
           \<and> batchPauses t = (length stargazers - 1) div 50"
proof -
  from enrichFrom_run[OF assms, of 0 "[]" 0 tr] obtain t where
    t: "enrichFrom E stargazers 0 [] 0 tr = Some ([] @ map (expectedEntry E) (drop 0 stargazers), tr @ t)"
       "batchPauses t = (if 0 < length stargazers then (length stargazers - 0 - 1) div 50 else 0)"
    by blast
  have fails: "expectedEntry E s = s" if "fetchFails E s" for s
    using that by (auto simp: fetchFails_def expectedEntry_def split: option.splits sum.splits)
  have "enrichStargazersData E stargazers tr = Some (map (expectedEntry E) stargazers, tr @ t)"
    using t(1) by (simp add: enrichStargazersData_def)
  moreover have "batchPauses t = (length stargazers - 1) div 50"
    using t(2) by (cases "stargazers = []") auto
  ultimately show ?thesis using fails by auto
qed

theorem enrichment_keeps_every_record_witness:
  "length crowd = 50
   \<and> map_option length (map_option fst (enrichStargazersData (profileServer threeMissing) crowd []))
       = Some 50
   \<and> map_option (unchangedCount crowd)
        (map_option fst (enrichStargazersData (profileServer threeMissing) crowd [])) = Some 3
   \<and> batchPauses (effects (enrichStargazersData (profileServer threeMissing) crowd [])) = 0"
proof -
  let ?E = "profileServer threeMissing"
  have len: "length crowd = 50" by (simp add: crowd_def)
  have settle: "\<forall>s\<in>set crowd. fetchOutcome ?E (UserUrl (login s)) \<noteq> None"
    by (simp add: fetchOutcome_profileServer)
  from enrichment_keeps_every_record[OF settle, of "[]"] obtain out t where
    run: "enrichStargazersData ?E crowd [] = Some (out, [] @ t)"
    and l: "length out = length crowd"
    and each: "\<forall>i<length crowd. out ! i = expectedEntry ?E (crowd ! i)"
    and p: "batchPauses t = (length crowd - 1) div 50" by blast
  have "out = map (expectedEntry ?E) crowd"
    using l each by (intro nth_equalityI) auto
  then have "unchangedCount crowd out = 3"
    using crowd_unchanged by (simp add: unchangedCount_map)
  with run l len p show ?thesis by simp
qed

text \<open>
  C9, as stated, fails: the report carries \<^verbatim>\<open>report_generated_at\<close>, read from the clock
  when the function runs, so two invocations on the same input at different times give
  different reports.
\<close>

theorem report_timestamp_counterexample:
  "generateStargazersReport ''SolaceLabs/solace-agent-mesh'' 0 []
     \<noteq> generateStargazersReport ''SolaceLabs/solace-agent-mesh'' 1000 []"
  by (simp add: generateStargazersReport_def Let_def)

text \<open>
  C9, amended. \<^verbatim>\<open>generateStargazersReport\<close> does no network or file I/O, and its report
  is a function of the input sequence, the repository name and the clock: the summary
  records the repository, the number of records and the time of the call, and everything
  else is the same at any time of call. The user-type table counts the records of each
  type, the top list is the first 20 records in the order given, and the most-recent and
  oldest lists come from a sort of their own: they are the same whether the caller had
  the records sorted ascending or descending, and for records with pairwise different
  \<^verbatim>\<open>starred_at\<close> they do not depend on the order of the input at all.
\<close>

theorem report_depends_on_input_and_clock_only:
  "summary (generateStargazersReport repo now xs)
     = \<lparr>repository = repo, total_stargazers = length xs, report_generated_at = now\<rparr>
   \<and> statistics (generateStargazersReport repo now xs)
       = statistics (generateStargazersReport repo later xs)
   \<and> stargazers_list (generateStargazersReport repo now xs)
       = stargazers_list (generateStargazersReport repo later xs)
   \<and> (\<forall>k. map_of (user_types (statistics (generateStargazersReport repo now xs))) k
            = (if \<exists>s\<in>set xs. typeOrUser s = k
               then Some (length (filter (\<lambda>s. typeOrUser s = k) xs)) else None))
   \<and> map t_login (top_stargazers (statistics (generateStargazersReport repo now xs)))
       = map login (take 20 xs)
   \<and> (\<forall>ys. mset ys = mset xs \<and> distinct (map starred_at xs)
         \<longrightarrow> recent_stargazers (statistics (generateStargazersReport repo now ys))
               = recent_stargazers (statistics (generateStargazersReport repo now xs))
           \<and> oldest_stargazers (statistics (generateStargazersReport repo now ys))
               = oldest_stargazers (statistics (generateStargazersReport repo now xs)))
   \<and> recent_stargazers (statistics (generateStargazersReport repo now
         (filterAndSortStargazers R xs (opts\<lparr>opt_sort := ''asc''\<rparr>))))
       = recent_stargazers (statistics (generateStargazersReport repo now
           (filterAndSortStargazers R xs (opts\<lparr>opt_sort := ''desc''\<rparr>))))
   \<and> oldest_stargazers (statistics (generateStargazersReport repo now
         (filterAndSortStargazers R xs (opts\<lparr>opt_sort := ''asc''\<rparr>))))
       = oldest_stargazers (statistics (generateStargazersReport repo now
           (filterAndSortStargazers R xs (opts\<lparr>opt_sort := ''desc''\<rparr>))))"
proof (intro conjI allI impI)
  show "recent_stargazers (statistics (generateStargazersReport repo now
         (filterAndSortStargazers R xs (opts\<lparr>opt_sort := ''asc''\<rparr>))))
       = recent_stargazers (statistics (generateStargazersReport repo now
           (filterAndSortStargazers R xs (opts\<lparr>opt_sort := ''desc''\<rparr>))))"
    and "oldest_stargazers (statistics (generateStargazersReport repo now
         (filterAndSortStargazers R xs (opts\<lparr>opt_sort := ''asc''\<rparr>))))
       = oldest_stargazers (statistics (generateStargazersReport repo now
           (filterAndSortStargazers R xs (opts\<lparr>opt_sort := ''desc''\<rparr>))))"
    unfolding filterAndSort_sorts
    by (simp_all add: generateStargazersReport_def Let_def resort_after_caller_sort)
next
  fix k
  have "length (filter (\<lambda>s. typeOrUser s = k) xs) = 0 \<longleftrightarrow> \<not> (\<exists>s\<in>set xs. typeOrUser s = k)"
    by (auto simp: filter_empty_conv)
  then show "map_of (user_types (statistics (generateStargazersReport repo now xs))) k
            = (if \<exists>s\<in>set xs. typeOrUser s = k
               then Some (length (filter (\<lambda>s. typeOrUser s = k) xs)) else None)"
    by (simp add: generateStargazersReport_def user_types_lookup Let_def del: length_0_conv)
next
  fix ys
  assume a: "mset ys = mset xs \<and> distinct (map starred_at xs)"
  then have "sort_key (\<lambda>s. - starred_at s) ys = sort_key (\<lambda>s. - starred_at s) xs"
    using resort_ignores_order by blast
  then show "recent_stargazers (statistics (generateStargazersReport repo now ys))
               = recent_stargazers (statistics (generateStargazersReport repo now xs))"
    and "oldest_stargazers (statistics (generateStargazersReport repo now ys))
               = oldest_stargazers (statistics (generateStargazersReport repo now xs))"
    by (simp_all add: generateStargazersReport_def Let_def)
qed (simp_all add: generateStargazersReport_def Let_def comp_def take_map)

theorem report_depends_on_input_and_clock_only_witness:
  "recent_stargazers (statistics (generateStargazersReport ''o/r'' 0 (rev trio)))
     = recent_stargazers (statistics (generateStargazersReport ''o/r'' 0 trio))
   \<and> map b_login (recent_stargazers (statistics (generateStargazersReport ''o/r'' 0 trio)))
       = [''acme'', ''bob'', ''alice'']
   \<and> map b_login (oldest_stargazers (statistics (generateStargazersReport ''o/r'' 0 (rev trio))))
       = [''alice'', ''bob'', ''acme'']
   \<and> map_of (user_types (statistics (generateStargazersReport ''o/r'' 0 trio))) ''User'' = Some 2"
proof -
  note inst = report_depends_on_input_and_clock_only[of "''o/r''" 0 trio 0 "fixedOffset 0" initialOptions]
  have pre: "mset (rev trio) = mset trio \<and> distinct (map starred_at trio)"
    by (simp add: trio_def flatten_def sampleItem_def)
  with inst have a: "recent_stargazers (statistics (generateStargazersReport ''o/r'' 0 (rev trio)))
     = recent_stargazers (statistics (generateStargazersReport ''o/r'' 0 trio))"
    and b: "oldest_stargazers (statistics (generateStargazersReport ''o/r'' 0 (rev trio)))
     = oldest_stargazers (statistics (generateStargazersReport ''o/r'' 0 trio))"
    by blast+
  have c: "map b_login (recent_stargazers (statistics (generateStargazersReport ''o/r'' 0 trio)))
       = [''acme'', ''bob'', ''alice'']"
    by (simp add: generateStargazersReport_def Let_def trio_def flatten_def sampleItem_def
        sampleUser_def)
  have d: "map b_login (oldest_stargazers (statistics (generateStargazersReport ''o/r'' 0 trio)))
       = [''alice'', ''bob'', ''acme'']"
    by (simp add: generateStargazersReport_def Let_def trio_def flatten_def sampleItem_def
        sampleUser_def lastTen_def)
  have "\<exists>s\<in>set trio. typeOrUser s = ''User''"
    by (simp add: trio_def typeOrUser_def flatten_def sampleItem_def sampleUser_def)
  with inst have "map_of (user_types (statistics (generateStargazersReport ''o/r'' 0 trio))) ''User''
      = Some (length (filter (\<lambda>s. typeOrUser s = ''User'') trio))"
    by presburger
  then have e: "map_of (user_types (statistics (generateStargazersReport ''o/r'' 0 trio))) ''User'' = Some 2"
    by (simp add: trio_def typeOrUser_def flatten_def sampleItem_def sampleUser_def)
  show ?thesis using a b c d e by simp
qed

text \<open>
  C10. \<^verbatim>\<open>getDetailedUserInfo\<close> never rejects: whenever it settles it resolves, and a
  rejection of the underlying request makes it resolve with \<^verbatim>\<open>null\<close>. So the \<^verbatim>\<open>catch\<close>
  branch of the enrichment callback is never taken (a run of \<^verbatim>\<open>enrichStargazersData\<close>
  writes none of its console lines), and spreading \<^verbatim>\<open>null\<close> into a record leaves the
  record as it was.
\<close>

theorem getDetailedUserInfo_never_rejects:
  "(\<forall>r tr'. getDetailedUserInfo E username tr = Some (r, tr') \<longrightarrow> (\<exists>d. r = Inr d))
   \<and> (\<forall>e tr1. makeRequest E (UserUrl username) 0 tr = Some (Inl e, tr1)
         \<longrightarrow> getDetailedUserInfo E username tr
               = Some (Inr PNull, tr1 @ [Log (CouldNotFetch username e)]))
   \<and> (\<forall>out tr'. enrichStargazersData E stargazers tr = Some (out, tr')
         \<longrightarrow> catchLines tr' = catchLines tr)
   \<and> spread s PNull = s"
proof (intro conjI allI impI)
  fix r tr'
  assume "getDetailedUserInfo E username tr = Some (r, tr')"
  then show "\<exists>d. r = Inr d" using getDetailedUserInfo_resolves by blast
next
  fix e tr1
  assume "makeRequest E (UserUrl username) 0 tr = Some (Inl e, tr1)"
  then show "getDetailedUserInfo E username tr
               = Some (Inr PNull, tr1 @ [Log (CouldNotFetch username e)])"
    by (simp add: getDetailedUserInfo_def)
next
  fix out tr'
  assume "enrichStargazersData E stargazers tr = Some (out, tr')"
  then show "catchLines tr' = catchLines tr"
    using enrichFrom_no_catch by (simp add: enrichStargazersData_def)
next
  show "spread s PNull = s" by simp
qed

theorem getDetailedUserInfo_never_rejects_witness:
  "getDetailedUserInfo (profileServer [''ghost'']) ''ghost'' []
     = Some (Inr PNull,
             [Request (UserUrl ''ghost''),
              Log (CouldNotFetch ''ghost'' (HttpError 404 (Json (PMessage ''Not Found''))))])
   \<and> map_option fst (enrichStargazersData (profileServer [''ghost''])
                       [flatten (sampleItem ''ghost'' 0), flatten (sampleItem ''octocat'' 1)] [])
       = Some [flatten (sampleItem ''ghost'' 0),
               spread (flatten (sampleItem ''octocat'' 1)) (PUser (profileOf ''octocat''))]
   \<and> catchLines (effects (enrichStargazersData (profileServer [''ghost''])
                       [flatten (sampleItem ''ghost'' 0), flatten (sampleItem ''octocat'' 1)] []))
       = []"
proof -
  let ?E = "profileServer [''ghost'']"
  let ?xs = "[flatten (sampleItem ''ghost'' 0), flatten (sampleItem ''octocat'' 1)]"
  note inst = getDetailedUserInfo_never_rejects[of ?E "''ghost''" "[]" ?xs]
  have "makeRequest ?E (UserUrl ''ghost'') 0 []
      = Some (Inl (HttpError 404 (Json (PMessage ''Not Found''))), [Request (UserUrl ''ghost'')])"
    by (subst makeRequest.simps) (simp add: profileServer_def)
  with inst have a: "getDetailedUserInfo ?E ''ghost'' []
     = Some (Inr PNull, [Request (UserUrl ''ghost'')]
               @ [Log (CouldNotFetch ''ghost'' (HttpError 404 (Json (PMessage ''Not Found''))))])"
    by blast
  have settle: "\<forall>s\<in>set ?xs. fetchOutcome ?E (UserUrl (login s)) \<noteq> None"
    by (simp add: fetchOutcome_profileServer)
  from enrichFrom_run[OF settle, of 0 "[]" 0 "[]"] obtain t where
    run: "enrichStargazersData ?E ?xs [] = Some (map (expectedEntry ?E) ?xs, t)"
    by (auto simp: enrichStargazersData_def)
  with inst have c: "catchLines t = catchLines []" by blast
  have "map (expectedEntry ?E) ?xs
      = [flatten (sampleItem ''ghost'' 0),
         spread (flatten (sampleItem ''octocat'' 1)) (PUser (profileOf ''octocat''))]"
    by (simp add: expectedEntry_def fetchOutcome_profileServer flatten_def sampleItem_def
        sampleUser_def)
  with a run c show ?thesis by (simp add: catchLines_def)
qed


end
